theory Spec2Isabelle
  imports Complex_Main
begin

text \<open>
  The expense tracker: \<open>ExpenseDashboard\<close> keeps the list of expenses in its state and in
  \<open>AsyncStorage\<close>, \<open>AddExpenseModal\<close> validates a new entry and hands it over. The
  functions of the two components are functions on an explicit state here; what the
  environment decides (the clock, the outcome of a storage call, the button pressed in a
  dialog) is an argument.
\<close>

section \<open>JavaScript values used by the expense screen\<close>

text \<open>
  Strings are \<^typ>\<open>string\<close>: lists of 8-bit characters, read as the code units
  U+0000 to U+00FF. A number is \<open>NaN\<close>, an infinity, or a finite value carried as an exact
  rational. Arithmetic on numbers is the engine's and is not fixed here: addition is a
  function of the platform. \<open>Null\<close> is the value \<open>null\<close>, which a record read back from the
  store holds where the amount written was no finite number.
\<close>

datatype jsnum = NaN | Fin rat | PosInf | NegInf | Null

fun isNaN :: "jsnum \<Rightarrow> bool" where
  "isNaN NaN = True"
| "isNaN _ = False"

text \<open>
  \<open>x <= 0\<close> and \<open>x > 0\<close>; every comparison with \<open>NaN\<close> is false, and \<open>null\<close> compares as
  \<open>0\<close>.
\<close>

fun le_zero :: "jsnum \<Rightarrow> bool" where
  "le_zero NaN = False"
| "le_zero (Fin q) = (q \<le> 0)"
| "le_zero PosInf = False"
| "le_zero NegInf = True"
| "le_zero Null = True"

fun gt_zero :: "jsnum \<Rightarrow> bool" where
  "gt_zero NaN = False"
| "gt_zero (Fin q) = (0 < q)"
| "gt_zero PosInf = True"
| "gt_zero NegInf = False"
| "gt_zero Null = False"

text \<open>\<open>String.prototype.trim\<close>: the white space and line terminator code units below U+0100.\<close>

definition isWhiteSpace :: "char \<Rightarrow> bool" where
  "isWhiteSpace c \<longleftrightarrow>
     c = CHR 0x09 \<or> c = CHR 0x0A \<or> c = CHR 0x0B \<or> c = CHR 0x0C \<or> c = CHR 0x0D \<or>
     c = CHR 0x20 \<or> c = CHR 0xA0"

definition trim :: "string \<Rightarrow> string" where
  "trim s = rev (dropWhile isWhiteSpace (rev (dropWhile isWhiteSpace s)))"

text \<open>
  What trimming is to achieve, in the words of the specification: \<open>t\<close> is \<open>s\<close> with
  leading and trailing white space removed.
\<close>

definition strippedOf :: "string \<Rightarrow> string \<Rightarrow> bool" where
  "strippedOf s t \<longleftrightarrow>
     (\<exists>a b. s = a @ t @ b \<and> list_all isWhiteSpace a \<and> list_all isWhiteSpace b) \<and>
     (t = [] \<or> (\<not> isWhiteSpace (hd t) \<and> \<not> isWhiteSpace (last t)))"

text \<open>\<open>Number.prototype.toString\<close> on the integer that \<open>Date.now()\<close> returns.\<close>

fun natToString :: "nat \<Rightarrow> string" where
  "natToString n =
     (if n < 10 then [''0123456789'' ! n]
      else natToString (n div 10) @ [''0123456789'' ! (n mod 10)])"

declare natToString.simps [simp del]

definition toString :: "int \<Rightarrow> string" where
  "toString i = (if i < 0 then CHR ''-'' # natToString (nat (- i)) else natToString (nat i))"


section \<open>The expense record and the platform\<close>

record expense =
  id' :: string
  amount :: jsnum
  category :: string
  date :: string
  description :: string
  timestamp :: string

text \<open>
  What \<open>JSON.parse\<close> can do with the stored text, as far as \<open>loadExpenses\<close> tells the
  cases apart: it throws, it returns a value that has no \<open>sort\<close> method, or it returns an
  array, taken here to be an array of expense records.
\<close>

datatype parsed = SyntaxError | NotSortable | Parsed "expense list"

text \<open>
  The library functions the two components call. They are not part of the repository, so
  they are parameters: \<open>newDate s\<close> is the time value of \<open>new Date(s)\<close> in milliseconds
  (\<open>None\<close> for an invalid date), \<open>getMonth\<close> and \<open>getFullYear\<close> read a time value in the
  device's time zone, and \<open>plus\<close> is \<open>+\<close> on two numbers, which rounds and overflows as
  the engine's double arithmetic does.
\<close>

record platform =
  parseFloat :: "string \<Rightarrow> jsnum"
  plus :: "jsnum \<Rightarrow> jsnum \<Rightarrow> jsnum"
  toISOString :: "int \<Rightarrow> string"
  newDate :: "string \<Rightarrow> int option"
  getMonth :: "int \<Rightarrow> int"
  getFullYear :: "int \<Rightarrow> int"
  stringify :: "expense list \<Rightarrow> string"
  parse :: "string \<Rightarrow> parsed"

text \<open>Whether a promise of \<open>AsyncStorage\<close> resolves or rejects is the environment's choice.\<close>

datatype io = Resolves | Rejects

text \<open>The button of the confirmation dialog that the user presses.\<close>

datatype choice = Cancel | Delete

text \<open>
  The state of \<open>ExpenseDashboard\<close>, the value stored under the key \<open>expenses\<close>, and what
  has been shown through \<open>Alert.alert\<close> (title and message) and \<open>console.error\<close>.
\<close>

record world =
  expenses :: "expense list"
  modalVisible :: bool
  refreshing :: bool
  loading :: bool
  storage :: "string option"
  alerts :: "(string \<times> string) list"
  console :: "string list"

definition initialWorld :: "string option \<Rightarrow> world" where
  "initialWorld st =
     \<lparr>expenses = [], modalVisible = False, refreshing = False, loading = True,
      storage = st, alerts = [], console = []\<rparr>"

text \<open>The state of \<open>AddExpenseModal\<close>: the four text fields.\<close>

record form =
  f_amount :: string
  f_category :: string
  f_date :: string
  f_description :: string

definition resetForm :: form where
  "resetForm = \<lparr>f_amount = [], f_category = [], f_date = [], f_description = []\<rparr>"

definition alert :: "string \<Rightarrow> string \<Rightarrow> world \<Rightarrow> world" where
  "alert title message w = w\<lparr>alerts := alerts w @ [(title, message)]\<rparr>"

definition console_error :: "string \<Rightarrow> world \<Rightarrow> world" where
  "console_error message w = w\<lparr>console := console w @ [message]\<rparr>"


section \<open>ExpenseDashboard\<close>

text \<open>
  \<open>Array.prototype.sort\<close> with a comparator. The comparator returns a number, \<open>None\<close>
  standing for \<open>NaN\<close>, which the sort reads as zero. The sort is stable; it is written here
  as an insertion sort that moves an element behind exactly those it compares greater to.
\<close>

definition comesAfter :: "('a \<Rightarrow> 'a \<Rightarrow> int option) \<Rightarrow> 'a \<Rightarrow> 'a \<Rightarrow> bool" where
  "comesAfter cmp a b = (case cmp a b of None \<Rightarrow> False | Some v \<Rightarrow> 0 < v)"

fun insertBy :: "('a \<Rightarrow> 'a \<Rightarrow> int option) \<Rightarrow> 'a \<Rightarrow> 'a list \<Rightarrow> 'a list" where
  "insertBy cmp x [] = [x]"
| "insertBy cmp x (y # ys) =
     (if comesAfter cmp x y then y # insertBy cmp x ys else x # y # ys)"

definition array_sort :: "('a \<Rightarrow> 'a \<Rightarrow> int option) \<Rightarrow> 'a list \<Rightarrow> 'a list" where
  "array_sort cmp xs = foldr (insertBy cmp) xs []"

text \<open>
  The functions of the component follow. A call to \<open>AsyncStorage\<close> is one step: \<open>getItem\<close>
  reads the stored value, \<open>setItem\<close> replaces it as a whole, and either may reject instead.
  \<open>handleSaveExpense\<close> and \<open>deleteExpense\<close> do not await the write they start; here it
  takes effect before the next event.
\<close>

text \<open>The comparator of \<open>loadExpenses\<close>: \<open>new Date(b.timestamp) - new Date(a.timestamp)\<close>.\<close>

definition newestFirst :: "platform \<Rightarrow> expense \<Rightarrow> expense \<Rightarrow> int option" where
  "newestFirst P a b =
     (case (newDate P (timestamp b), newDate P (timestamp a)) of
        (Some tb, Some ta) \<Rightarrow> Some (tb - ta)
      | _ \<Rightarrow> None)"

text \<open>
  Ordered by timestamp, newest first: wherever \<open>a\<close> stands before \<open>b\<close> and both
  timestamps are dates, the date of \<open>b\<close> is not later than that of \<open>a\<close>.
\<close>

definition descending :: "platform \<Rightarrow> expense list \<Rightarrow> bool" where
  "descending P xs \<longleftrightarrow>
     sorted_wrt (\<lambda>a b. \<forall>ta tb. newDate P (timestamp a) = Some ta \<longrightarrow>
                            newDate P (timestamp b) = Some tb \<longrightarrow> tb \<le> ta) xs"

definition loadFailed :: "world \<Rightarrow> world" where
  "loadFailed w =
     alert ''Error'' ''Failed to load expenses'' (console_error ''Error loading expenses:'' w)"

definition loadExpenses :: "platform \<Rightarrow> io \<Rightarrow> world \<Rightarrow> world" where
  "loadExpenses P rd w =
     (let w1 = w\<lparr>loading := True\<rparr>;
          w2 = (case rd of
                  Rejects \<Rightarrow> loadFailed w1
                | Resolves \<Rightarrow>
                    (case storage w1 of
                       None \<Rightarrow> w1
                     | Some storedExpenses \<Rightarrow>
                         if storedExpenses = [] then w1
                         else (case parse P storedExpenses of
                                 SyntaxError \<Rightarrow> loadFailed w1
                               | NotSortable \<Rightarrow> loadFailed w1
                               | Parsed parsedExpenses \<Rightarrow>
                                   w1\<lparr>expenses := array_sort (newestFirst P) parsedExpenses\<rparr>)))
      in w2\<lparr>loading := False\<rparr>)"

definition saveExpenses :: "platform \<Rightarrow> io \<Rightarrow> expense list \<Rightarrow> world \<Rightarrow> world" where
  "saveExpenses P wr newExpenses w =
     (case wr of
        Resolves \<Rightarrow> w\<lparr>storage := Some (stringify P newExpenses)\<rparr>
      | Rejects \<Rightarrow>
          alert ''Error'' ''Failed to save expenses'' (console_error ''Error saving expenses:'' w))"

definition handleSaveExpense :: "platform \<Rightarrow> io \<Rightarrow> expense \<Rightarrow> world \<Rightarrow> world" where
  "handleSaveExpense P wr newExpense w =
     (let updatedExpenses = newExpense # expenses w
      in saveExpenses P wr updatedExpenses (w\<lparr>expenses := updatedExpenses\<rparr>))"

definition deleteExpense :: "platform \<Rightarrow> choice \<Rightarrow> io \<Rightarrow> string \<Rightarrow> world \<Rightarrow> world" where
  "deleteExpense P pressed wr i w =
     (let w1 = alert ''Delete Expense'' ''Are you sure you want to delete this expense?'' w
      in case pressed of
           Cancel \<Rightarrow> w1
         | Delete \<Rightarrow>
             (let updatedExpenses = filter (\<lambda>expense. id' expense \<noteq> i) (expenses w)
              in saveExpenses P wr updatedExpenses (w1\<lparr>expenses := updatedExpenses\<rparr>)))"

definition onRefresh :: "platform \<Rightarrow> io \<Rightarrow> world \<Rightarrow> world" where
  "onRefresh P rd w = (loadExpenses P rd (w\<lparr>refreshing := True\<rparr>))\<lparr>refreshing := False\<rparr>"






section \<open>AddExpenseModal\<close>

text \<open>
  \<open>handleSave\<close> with \<open>onSave = handleSaveExpense\<close> and \<open>onClose\<close> hiding the modal, as
  the dashboard passes them. \<open>t_id\<close> is the reading of \<open>Date.now()\<close>, \<open>t_ts\<close> that of
  \<open>new Date()\<close>. An empty string is the only falsy string.
\<close>

definition newExpenseOf :: "platform \<Rightarrow> int \<Rightarrow> int \<Rightarrow> form \<Rightarrow> expense" where
  "newExpenseOf P t_id t_ts fm =
     \<lparr>id' = toString t_id,
      amount = parseFloat P (f_amount fm),
      category = trim (f_category fm),
      date = trim (f_date fm),
      description = trim (f_description fm),
      timestamp = toISOString P t_ts\<rparr>"

definition handleSave :: "platform \<Rightarrow> int \<Rightarrow> int \<Rightarrow> io \<Rightarrow> form \<Rightarrow> world \<Rightarrow> form \<times> world" where
  "handleSave P t_id t_ts wr fm w =
     (if f_amount fm = [] \<or> f_category fm = [] \<or> f_date fm = [] then
        (fm, alert ''Error''
               ''Please fill in all required fields (Amount, Category, and Date)'' w)
      else
        (let numAmount = parseFloat P (f_amount fm) in
         if isNaN numAmount \<or> le_zero numAmount then
           (fm, alert ''Error'' ''Please enter a valid amount greater than 0'' w)
         else
           (let newExpense = newExpenseOf P t_id t_ts fm;
                w1 = handleSaveExpense P wr newExpense w
            in (resetForm, w1\<lparr>modalVisible := False\<rparr>))))"

text \<open>A candidate that passes both checks of \<open>handleSave\<close>.\<close>

definition valid :: "platform \<Rightarrow> form \<Rightarrow> bool" where
  "valid P fm \<longleftrightarrow>
     f_amount fm \<noteq> [] \<and> f_category fm \<noteq> [] \<and> f_date fm \<noteq> [] \<and>
     gt_zero (parseFloat P (f_amount fm))"


section \<open>A sample device\<close>

text \<open>
  A concrete platform for the examples. \<open>decimalParseFloat\<close> reads an optional sign and a
  decimal numeral with an optional fraction, as \<open>parseFloat\<close> does on such texts, and
  \<open>Infinity\<close>; it knows no exponents. The clock functions are those of a device in UTC at
  the two instants the examples use (15 and 16 March 2024, 10:53:20) and answer as for the
  epoch elsewhere. The JSON functions write the amounts and read back the collections of
  the examples; any other text is a syntax error but \<open>{}\<close> and \<open>null\<close>, which are no arrays.
  The JSON functions for every collection are those of the next section.
\<close>

definition isDigit :: "char \<Rightarrow> bool" where
  "isDigit c \<longleftrightarrow> c \<in> set ''0123456789''"

definition digitsValue :: "string \<Rightarrow> nat" where
  "digitsValue ds = foldl (\<lambda>a c. 10 * a + (of_char c - 48)) 0 ds"

definition decimalParseFloat :: "string \<Rightarrow> jsnum" where
  "decimalParseFloat s =
     (let t = dropWhile isWhiteSpace s;
          neg = (take 1 t = ''-'');
          u = (if take 1 t = ''-'' \<or> take 1 t = ''+'' then drop 1 t else t);
          ip = takeWhile isDigit u;
          r = dropWhile isDigit u;
          fp = (if take 1 r = ''.'' then takeWhile isDigit (drop 1 r) else [])
      in if ip = [] \<and> fp = [] then
           (if take 8 u = ''Infinity'' then (if neg then NegInf else PosInf) else NaN)
         else Fin ((if neg then - 1 else 1) *
                   (of_nat (digitsValue ip) + of_nat (digitsValue fp) / 10 ^ length fp)))"

text \<open>
  \<open>samplePlus\<close> adds finite numbers exactly, as the engine does wherever the exact sum is a
  double; it does not round. \<open>null\<close> counts as \<open>0\<close>.
\<close>

fun samplePlus :: "jsnum \<Rightarrow> jsnum \<Rightarrow> jsnum" where
  "samplePlus Null Null = Fin 0"
| "samplePlus Null b = b"
| "samplePlus a Null = a"
| "samplePlus NaN _ = NaN"
| "samplePlus _ NaN = NaN"
| "samplePlus (Fin a) (Fin b) = Fin (a + b)"
| "samplePlus (Fin a) PosInf = PosInf"
| "samplePlus (Fin a) NegInf = NegInf"
| "samplePlus PosInf (Fin b) = PosInf"
| "samplePlus NegInf (Fin b) = NegInf"
| "samplePlus PosInf PosInf = PosInf"
| "samplePlus NegInf NegInf = NegInf"
| "samplePlus PosInf NegInf = NaN"
| "samplePlus NegInf PosInf = NaN"

definition food :: expense where
  "food = \<lparr>id' = ''1710500000000'', amount = Fin (85 / 2), category = ''Food'',
           date = ''03/15/2024'', description = [],
           timestamp = ''2024-03-15T10:53:20.000Z''\<rparr>"

definition transport :: expense where
  "transport = \<lparr>id' = ''1710586400000'', amount = Fin 10, category = ''Transport'',
                date = ''03/16/2024'', description = [],
                timestamp = ''2024-03-16T10:53:20.000Z''\<rparr>"

definition foodForm :: form where
  "foodForm = \<lparr>f_amount = ''42.50'', f_category = ''Food'', f_date = ''03/15/2024'',
               f_description = []\<rparr>"

definition transportForm :: form where
  "transportForm = \<lparr>f_amount = ''10'', f_category = ''Transport'', f_date = ''03/16/2024'',
                    f_description = []\<rparr>"

definition sampleToISOString :: "int \<Rightarrow> string" where
  "sampleToISOString t =
     (if t = 1710500000000 then ''2024-03-15T10:53:20.000Z''
      else if t = 1710586400000 then ''2024-03-16T10:53:20.000Z''
      else ''1970-01-01T00:00:00.000Z'')"

definition sampleNewDate :: "string \<Rightarrow> int option" where
  "sampleNewDate s =
     (if s = ''2024-03-15T10:53:20.000Z'' then Some 1710500000000
      else if s = ''2024-03-16T10:53:20.000Z'' then Some 1710586400000
      else if s = ''1970-01-01T00:00:00.000Z'' then Some 0
      else None)"

definition sampleGetMonth :: "int \<Rightarrow> int" where
  "sampleGetMonth t = (if t = 1710500000000 \<or> t = 1710586400000 then 2 else 0)"

definition sampleGetFullYear :: "int \<Rightarrow> int" where
  "sampleGetFullYear t = (if t = 1710500000000 \<or> t = 1710586400000 then 2024 else 1970)"

definition quoted :: "string \<Rightarrow> string" where
  "quoted s = CHR 0x22 # s @ [CHR 0x22]"

definition sampleNumber :: "jsnum \<Rightarrow> string" where
  "sampleNumber n =
     (if n = Fin (85 / 2) then ''42.5'' else if n = Fin 10 then ''10'' else ''null'')"

definition sampleObject :: "expense \<Rightarrow> string" where
  "sampleObject e =
     ''{'' @ quoted ''id'' @ '':'' @ quoted (id' e) @ '','' @
     quoted ''amount'' @ '':'' @ sampleNumber (amount e) @ '','' @
     quoted ''category'' @ '':'' @ quoted (category e) @ '','' @
     quoted ''date'' @ '':'' @ quoted (date e) @ '','' @
     quoted ''description'' @ '':'' @ quoted (description e) @ '','' @
     quoted ''timestamp'' @ '':'' @ quoted (timestamp e) @ ''}''"

fun commaSeparated :: "string list \<Rightarrow> string" where
  "commaSeparated [] = []"
| "commaSeparated [s] = s"
| "commaSeparated (s # t # ss) = s @ '','' @ commaSeparated (t # ss)"

definition sampleStringify :: "expense list \<Rightarrow> string" where
  "sampleStringify xs = ''['' @ commaSeparated (map sampleObject xs) @ '']''"

definition sampleCollections :: "expense list list" where
  "sampleCollections = [[], [food], [transport], [transport, food], [food, transport]]"

definition sampleParse :: "string \<Rightarrow> parsed" where
  "sampleParse s =
     (case find (\<lambda>xs. sampleStringify xs = s) sampleCollections of
        Some xs \<Rightarrow> Parsed xs
      | None \<Rightarrow> if s = ''{}'' \<or> s = ''null'' then NotSortable else SyntaxError)"

definition device :: platform where
  "device =
     \<lparr>parseFloat = decimalParseFloat, plus = samplePlus, toISOString = sampleToISOString,
      newDate = sampleNewDate, getMonth = sampleGetMonth, getFullYear = sampleGetFullYear,
      stringify = sampleStringify, parse = sampleParse\<rparr>"

text \<open>The dashboard after the first expense of the examples has been saved.\<close>

definition afterFood :: world where
  "afterFood =
     snd (handleSave device 1710500000000 1710500000000 Resolves foodForm (initialWorld None))"


section \<open>The stored text\<close>

text \<open>
  \<open>JSON.stringify\<close> on the collection and \<open>JSON.parse\<close> on the stored text, written out so
  that saving and loading again can be followed through the text in the store. A string is
  written between quotes with the escapes of the standard: a short form for the quote, the
  backslash and five control characters, and \<open>\u00XX\<close> for the other code units below
  U+0020.
\<close>

definition escapeChar :: "char \<Rightarrow> string" where
  "escapeChar c =
     (if c = CHR 0x22 then [CHR 0x5C, CHR 0x22]
      else if c = CHR 0x5C then [CHR 0x5C, CHR 0x5C]
      else if c = CHR 0x08 then [CHR 0x5C, CHR ''b'']
      else if c = CHR 0x0C then [CHR 0x5C, CHR ''f'']
      else if c = CHR 0x0A then [CHR 0x5C, CHR ''n'']
      else if c = CHR 0x0D then [CHR 0x5C, CHR ''r'']
      else if c = CHR 0x09 then [CHR 0x5C, CHR ''t'']
      else if of_char c < (32 :: nat) then
        [CHR 0x5C, CHR ''u'', CHR ''0'', CHR ''0'',
         ''0123456789abcdef'' ! (of_char c div 16), ''0123456789abcdef'' ! (of_char c mod 16)]
      else [c])"

definition stringText :: "string \<Rightarrow> string" where
  "stringText s = CHR 0x22 # concat (map escapeChar s) @ [CHR 0x22]"

text \<open>
  Reading a string after its opening quote gives the text up to the closing quote and what
  follows it. Every escape of JSON is read; a \<open>\u\<close> escape above U+00FF has no character
  here and is refused, as is a control character that is not escaped.
\<close>

definition hexValue :: "char \<Rightarrow> nat option" where
  "hexValue c =
     (let n = of_char c :: nat in
      if 48 \<le> n \<and> n \<le> 57 then Some (n - 48)
      else if 97 \<le> n \<and> n \<le> 102 then Some (n - 87)
      else if 65 \<le> n \<and> n \<le> 70 then Some (n - 55)
      else None)"

definition unescape :: "char \<Rightarrow> char option" where
  "unescape e =
     (if e = CHR 0x22 \<or> e = CHR 0x5C \<or> e = CHR ''/'' then Some e
      else if e = CHR ''b'' then Some (CHR 0x08)
      else if e = CHR ''f'' then Some (CHR 0x0C)
      else if e = CHR ''n'' then Some (CHR 0x0A)
      else if e = CHR ''r'' then Some (CHR 0x0D)
      else if e = CHR ''t'' then Some (CHR 0x09)
      else None)"

definition consTo :: "char \<Rightarrow> (string \<times> string) option \<Rightarrow> (string \<times> string) option" where
  "consTo c r = map_option (\<lambda>(s, t). (c # s, t)) r"

fun readString :: "string \<Rightarrow> (string \<times> string) option" where
  "readString [] = None"
| "readString (c # cs) =
     (if c = CHR 0x22 then Some ([], cs)
      else if c = CHR 0x5C then
        (case cs of
           [] \<Rightarrow> None
         | e # es \<Rightarrow>
             if e = CHR ''u'' then
               (case es of
                  h1 # h2 # h3 # h4 # rest \<Rightarrow>
                    (case (hexValue h1, hexValue h2, hexValue h3, hexValue h4) of
                       (Some a, Some b, Some m, Some n) \<Rightarrow>
                         if a = 0 \<and> b = 0 then consTo (char_of (16 * m + n)) (readString rest)
                         else None
                     | _ \<Rightarrow> None)
                | _ \<Rightarrow> None)
             else (case unescape e of
                     None \<Rightarrow> None
                   | Some ch \<Rightarrow> consTo ch (readString es)))
      else if of_char c < (32 :: nat) then None
      else consTo c (readString cs))"

text \<open>
  A finite number is written as its decimal numeral: the sign, the integer part, and the
  digits of the fraction by long division. The engine writes the shortest numeral that
  reads back as the same double and uses an exponent for very large and very small numbers;
  either numeral reads back as the number written. \<open>NaN\<close>, the infinities and \<open>null\<close> are
  written as \<open>null\<close>. A rational that is no finite decimal is cut off after as many digits
  as its denominator counts; no double is such a number, see \<open>isDecimal_dyadic\<close> below.
\<close>

fun fracDigits :: "nat \<Rightarrow> nat \<Rightarrow> nat \<Rightarrow> string" where
  "fracDigits 0 r d = []"
| "fracDigits (Suc n) r d =
     (if r = 0 then [] else (''0123456789'' ! (10 * r div d)) # fracDigits n (10 * r mod d) d)"

definition numberText :: "jsnum \<Rightarrow> string" where
  "numberText n =
     (case n of
        Fin q \<Rightarrow>
          (let a = nat (fst (quotient_of \<bar>q\<bar>)); d = nat (snd (quotient_of \<bar>q\<bar>));
               f = fracDigits d (a mod d) d
           in (if q < 0 then ''-'' else []) @ natToString (a div d) @
              (if f = [] then [] else CHR ''.'' # f))
      | _ \<Rightarrow> ''null'')"

text \<open>
  Reading a number or \<open>null\<close>: an optional minus sign, digits without a leading zero, and
  an optional fraction. Exponents are not read.
\<close>

definition readNumber :: "string \<Rightarrow> (jsnum \<times> string) option" where
  "readNumber s =
     (if take 4 s = ''null'' then Some (Null, drop 4 s)
      else
        (let neg = (take 1 s = ''-'');
             u = (if neg then drop 1 s else s);
             ip = takeWhile isDigit u;
             r = dropWhile isDigit u;
             dot = (take 1 r = ''.'');
             fp = (if dot then takeWhile isDigit (drop 1 r) else []);
             rest = (if dot then dropWhile isDigit (drop 1 r) else r)
         in if ip = [] \<or> (1 < length ip \<and> hd ip = CHR ''0'') \<or> (dot \<and> fp = []) then None
            else Some (Fin ((if neg then - 1 else 1) *
                            (of_nat (digitsValue ip) + of_nat (digitsValue fp) / 10 ^ length fp)),
                       rest)))"

text \<open>
  The number that is read from the text written for a number, and the rationals that have
  a finite decimal numeral: those whose denominator \<open>d\<close> divides a power of ten. It then
  divides \<open>10 ^ d\<close>, which is how the test is written.
\<close>

definition throughJSON :: "jsnum \<Rightarrow> jsnum" where
  "throughJSON n =
     (case n of
        Fin q \<Rightarrow>
          (let a = nat (fst (quotient_of \<bar>q\<bar>)); d = nat (snd (quotient_of \<bar>q\<bar>));
               f = fracDigits d (a mod d) d
           in Fin ((if q < 0 then - 1 else 1) *
                   (of_nat (digitsValue (natToString (a div d))) +
                    of_nat (digitsValue f) / 10 ^ length f)))
      | _ \<Rightarrow> Null)"

definition isDecimal :: "rat \<Rightarrow> bool" where
  "isDecimal q \<longleftrightarrow> snd (quotient_of \<bar>q\<bar>) dvd 10 ^ nat (snd (quotient_of \<bar>q\<bar>))"

text \<open>
  A record is written as an object with its six fields in the order in which \<open>handleSave\<close>
  lists them, without white space, and the collection as an array of such objects.
\<close>

definition field :: "string \<Rightarrow> string" where
  "field k = quoted k @ '':''"

definition objectText :: "expense \<Rightarrow> string" where
  "objectText e =
     ''{'' @ field ''id'' @ stringText (id' e) @
     '','' @ field ''amount'' @ numberText (amount e) @
     '','' @ field ''category'' @ stringText (category e) @
     '','' @ field ''date'' @ stringText (date e) @
     '','' @ field ''description'' @ stringText (description e) @
     '','' @ field ''timestamp'' @ stringText (timestamp e) @ ''}''"

definition JSON_stringify :: "expense list \<Rightarrow> string" where
  "JSON_stringify xs = ''['' @ commaSeparated (map objectText xs) @ '']''"

text \<open>
  \<open>JSON_parse\<close> reads the arrays of such objects; \<open>readItems n\<close> reads up to \<open>n\<close> of them,
  and the length of the text is enough. A single number, string, \<open>true\<close>, \<open>false\<close>, \<open>null\<close>
  or \<open>{}\<close> is a value without \<open>sort\<close>. An array of other values, or one with white space
  between the tokens, has no counterpart in \<^typ>\<open>parsed\<close> and counts as a syntax error;
  \<open>JSON.stringify\<close> writes no such text for a collection.
\<close>

definition expect :: "string \<Rightarrow> string \<Rightarrow> string option" where
  "expect pre s = (if take (length pre) s = pre then Some (drop (length pre) s) else None)"

definition readQuoted :: "string \<Rightarrow> (string \<times> string) option" where
  "readQuoted s = (case s of [] \<Rightarrow> None | c # cs \<Rightarrow> if c = CHR 0x22 then readString cs else None)"

definition readObject :: "string \<Rightarrow> (expense \<times> string) option" where
  "readObject s =
     Option.bind (expect (''{'' @ field ''id'') s) (\<lambda>s1.
     Option.bind (readQuoted s1) (\<lambda>(i, s2).
     Option.bind (expect ('','' @ field ''amount'') s2) (\<lambda>s3.
     Option.bind (readNumber s3) (\<lambda>(a, s4).
     Option.bind (expect ('','' @ field ''category'') s4) (\<lambda>s5.
     Option.bind (readQuoted s5) (\<lambda>(c, s6).
     Option.bind (expect ('','' @ field ''date'') s6) (\<lambda>s7.
     Option.bind (readQuoted s7) (\<lambda>(d, s8).
     Option.bind (expect ('','' @ field ''description'') s8) (\<lambda>s9.
     Option.bind (readQuoted s9) (\<lambda>(n, s10).
     Option.bind (expect ('','' @ field ''timestamp'') s10) (\<lambda>s11.
     Option.bind (readQuoted s11) (\<lambda>(t, s12).
     Option.bind (expect ''}'' s12) (\<lambda>s13.
       Some (\<lparr>id' = i, amount = a, category = c, date = d, description = n, timestamp = t\<rparr>,
             s13))))))))))))))"

fun readItems :: "nat \<Rightarrow> string \<Rightarrow> (expense list \<times> string) option" where
  "readItems 0 s = None"
| "readItems (Suc n) s =
     (case readObject s of
        None \<Rightarrow> None
      | Some (e, r) \<Rightarrow>
          (case r of
             [] \<Rightarrow> None
           | c # cs \<Rightarrow>
               if c = CHR '','' then map_option (\<lambda>(es, t). (e # es, t)) (readItems n cs)
               else if c = CHR '']'' then Some ([e], cs)
               else None))"

definition scalar :: "string \<Rightarrow> bool" where
  "scalar s \<longleftrightarrow>
     s = ''true'' \<or> s = ''false'' \<or> s = ''{}'' \<or>
     (case readNumber s of Some (n, []) \<Rightarrow> True | _ \<Rightarrow> False) \<or>
     (case readQuoted s of Some (t, []) \<Rightarrow> True | _ \<Rightarrow> False)"

definition JSON_parse :: "string \<Rightarrow> parsed" where
  "JSON_parse s =
     (if s = ''[]'' then Parsed []
      else if take 1 s = ''['' then
        (case readItems (length s) (drop 1 s) of
           Some (es, []) \<Rightarrow> Parsed es
         | _ \<Rightarrow> SyntaxError)
      else if scalar s then NotSortable
      else SyntaxError)"

text \<open>
  A record as it comes back from the store, and a platform whose JSON functions are the
  ones above.
\<close>

definition afterJSON :: "expense \<Rightarrow> expense" where
  "afterJSON e = e\<lparr>amount := throughJSON (amount e)\<rparr>"

definition withJSON :: "platform \<Rightarrow> platform" where
  "withJSON P = P\<lparr>stringify := JSON_stringify, parse := JSON_parse\<rparr>"


section \<open>Basic facts\<close>

lemma not_gt_zero_iff: "\<not> gt_zero n \<longleftrightarrow> isNaN n \<or> le_zero n"
  by (cases n) auto

lemma last_dropWhile: "dropWhile P xs \<noteq> [] \<Longrightarrow> last (dropWhile P xs) = last xs"
  by (induction xs) (auto split: if_splits)

lemma trim_decomp:
  "\<exists>a b. s = a @ trim s @ b \<and> list_all isWhiteSpace a \<and> list_all isWhiteSpace b"
proof -
  define d where "d = dropWhile isWhiteSpace s"
  define a where "a = takeWhile isWhiteSpace s"
  define b where "b = rev (takeWhile isWhiteSpace (rev d))"
  have "rev d = takeWhile isWhiteSpace (rev d) @ dropWhile isWhiteSpace (rev d)"
    by simp
  then have "rev (rev d) = trim s @ b"
    unfolding trim_def b_def d_def by (metis rev_append)
  then have "d = trim s @ b"
    by simp
  moreover have "s = a @ d"
    by (simp add: a_def d_def)
  moreover have "list_all isWhiteSpace a"
    unfolding a_def list_all_iff by (meson set_takeWhileD)
  moreover have "list_all isWhiteSpace b"
    unfolding b_def list_all_iff set_rev by (meson set_takeWhileD)
  ultimately show ?thesis by blast
qed

lemma trim_ends:
  assumes "trim s \<noteq> []"
  shows "\<not> isWhiteSpace (hd (trim s)) \<and> \<not> isWhiteSpace (last (trim s))"
proof -
  define d where "d = dropWhile isWhiteSpace s"
  define r where "r = dropWhile isWhiteSpace (rev d)"
  have t: "trim s = rev r"
    by (simp add: trim_def r_def d_def)
  with assms have r: "r \<noteq> []"
    by simp
  then have d: "d \<noteq> []"
    by (auto simp: r_def)
  have "last (trim s) = hd r"
    using r by (simp add: t last_rev)
  moreover have "\<not> isWhiteSpace (hd r)"
    using r unfolding r_def by (rule hd_dropWhile)
  moreover have "hd (trim s) = last r"
    using r by (simp add: t hd_rev)
  moreover have "last r = last (rev d)"
    using r unfolding r_def by (rule last_dropWhile)
  moreover have "last (rev d) = hd d"
    using d by (simp add: last_rev)
  moreover have "\<not> isWhiteSpace (hd d)"
    using d unfolding d_def by (rule hd_dropWhile)
  ultimately show ?thesis by simp
qed

lemma trim_all_ws:
  assumes "list_all isWhiteSpace s"
  shows "trim s = []"
proof -
  from assms have h: "dropWhile isWhiteSpace s = []"
    by (simp add: list_all_iff)
  show ?thesis
    unfolding trim_def h by simp
qed

lemma handleSave_valid:
  assumes "valid P fm"
  shows "handleSave P t_id t_ts wr fm w =
           (resetForm, (handleSaveExpense P wr (newExpenseOf P t_id t_ts fm) w)\<lparr>modalVisible := False\<rparr>)"
proof -
  from assms have "\<not> (isNaN (parseFloat P (f_amount fm)) \<or> le_zero (parseFloat P (f_amount fm)))"
    using not_gt_zero_iff by (auto simp: valid_def)
  with assms show ?thesis
    by (simp add: handleSave_def valid_def Let_def)
qed

lemma expenses_saveExpenses: "expenses (saveExpenses P wr xs w) = expenses w"
  by (cases wr) (simp_all add: saveExpenses_def alert_def console_error_def)

lemma expenses_handleSaveExpense:
  "expenses (handleSaveExpense P wr e w) = e # expenses w"
  by (simp add: handleSaveExpense_def Let_def expenses_saveExpenses)

lemma expenses_handleSave:
  "valid P fm \<Longrightarrow>
   expenses (snd (handleSave P t_id t_ts wr fm w)) = newExpenseOf P t_id t_ts fm # expenses w"
  by (simp add: handleSave_valid expenses_handleSaveExpense)

lemma readBack: "foldl (\<lambda>a c. 10 * a + (of_char c - 48)) 0 (natToString n) = n"
proof (induction n rule: natToString.induct)
  case (1 n)
  have dig: "\<And>k. k < 10 \<Longrightarrow> (of_char (''0123456789'' ! k) :: nat) - 48 = k"
  proof -
    fix k :: nat
    assume "k < 10"
    then have "k = 0 \<or> k = 1 \<or> k = 2 \<or> k = 3 \<or> k = 4 \<or> k = 5 \<or> k = 6 \<or> k = 7 \<or> k = 8 \<or> k = 9"
      by arith
    then show "(of_char (''0123456789'' ! k) :: nat) - 48 = k"
      by (elim disjE) simp_all
  qed
  show ?case
  proof (cases "n < 10")
    case True
    then show ?thesis
      by (subst natToString.simps) (simp add: dig)
  next
    case False
    then have "foldl (\<lambda>a c. 10 * a + (of_char c - 48)) 0 (natToString (n div 10)) = n div 10"
      using 1 by simp
    with False show ?thesis
      by (subst natToString.simps) (simp add: dig)
  qed
qed

lemma natToString_inj: "natToString m = natToString n \<Longrightarrow> m = n"
  by (metis readBack)

lemma natToString_no_minus: "CHR ''-'' \<notin> set (natToString n)"
proof (induction n rule: natToString.induct)
  case (1 n)
  have dig: "\<And>k. k < 10 \<Longrightarrow> CHR ''-'' \<noteq> ''0123456789'' ! k"
  proof -
    fix k :: nat
    assume "k < 10"
    then have "k = 0 \<or> k = 1 \<or> k = 2 \<or> k = 3 \<or> k = 4 \<or> k = 5 \<or> k = 6 \<or> k = 7 \<or> k = 8 \<or> k = 9"
      by arith
    then show "CHR ''-'' \<noteq> ''0123456789'' ! k"
      by (elim disjE) simp_all
  qed
  show ?case
  proof (cases "n < 10")
    case True
    then show ?thesis
      by (subst natToString.simps) (simp add: dig)
  next
    case False
    with 1 show ?thesis
      by (subst natToString.simps) (simp add: dig)
  qed
qed

lemma natToString_nonempty: "natToString n \<noteq> []"
  by (subst natToString.simps) simp

lemma toString_inj: "toString i = toString j \<Longrightarrow> i = j"
proof (cases "i < 0"; cases "j < 0")
  assume "toString i = toString j" "i < 0" "j < 0"
  then show ?thesis
    using natToString_inj [of "nat (- i)" "nat (- j)"] by (simp add: toString_def)
next
  assume "toString i = toString j" "i < 0" "\<not> j < 0"
  then have "CHR ''-'' # natToString (nat (- i)) = natToString (nat j)"
    by (simp add: toString_def)
  then have "CHR ''-'' \<in> set (natToString (nat j))"
    by (metis list.set_intros(1))
  then show ?thesis
    using natToString_no_minus by blast
next
  assume "toString i = toString j" "\<not> i < 0" "j < 0"
  then have "natToString (nat i) = CHR ''-'' # natToString (nat (- j))"
    by (simp add: toString_def)
  then have "CHR ''-'' \<in> set (natToString (nat i))"
    by (metis list.set_intros(1))
  then show ?thesis
    using natToString_no_minus by blast
next
  assume "toString i = toString j" "\<not> i < 0" "\<not> j < 0"
  then show ?thesis
    using natToString_inj [of "nat i" "nat j"] by (simp add: toString_def)
qed


section \<open>Validation in handleSave\<close>

text \<open>
  What the two checks refuse: an empty amount, category or date text, and an amount text for
  which \<open>parseFloat\<close> gives \<open>NaN\<close> or a number that is not greater than zero. Then
  \<open>handleSave\<close> only shows an error alert: the form keeps its texts, \<open>onSave\<close> is not
  called, and neither the collection nor the stored value changes.
\<close>

lemma handleSave_rejects_invalid:
  assumes "f_amount fm = [] \<or> isNaN (parseFloat P (f_amount fm)) \<or>
           \<not> gt_zero (parseFloat P (f_amount fm)) \<or> f_category fm = [] \<or> f_date fm = []"
  shows "handleSave P t_id t_ts wr fm w =
           (fm, alert ''Error''
                  (if f_amount fm = [] \<or> f_category fm = [] \<or> f_date fm = []
                   then ''Please fill in all required fields (Amount, Category, and Date)''
                   else ''Please enter a valid amount greater than 0'') w) \<and>
         expenses (snd (handleSave P t_id t_ts wr fm w)) = expenses w \<and>
         storage (snd (handleSave P t_id t_ts wr fm w)) = storage w"
proof (cases "f_amount fm = [] \<or> f_category fm = [] \<or> f_date fm = []")
  case True
  then show ?thesis
    by (simp add: handleSave_def alert_def)
next
  case False
  with assms have "isNaN (parseFloat P (f_amount fm)) \<or> le_zero (parseFloat P (f_amount fm))"
    using not_gt_zero_iff by blast
  with False show ?thesis
    by (simp add: handleSave_def alert_def Let_def)
qed

lemma parseFloat_prefix: "decimalParseFloat ''1.2.3'' = Fin (6 / 5)"
  by (simp add: decimalParseFloat_def isWhiteSpace_def isDigit_def digitsValue_def)

text \<open>
  C1. An amount text that is no number is to be refused; the comment in \<open>handleSave\<close> says
  that the amount is validated to be a valid number. The check asks only whether
  \<open>parseFloat\<close> of the text is \<open>NaN\<close>, and \<open>parseFloat\<close> reads the longest numeric prefix.
  The text \<open>1.2.3\<close>, which the decimal pad can type, is therefore read as \<open>1.2\<close>: no alert
  is shown, the form is reset, and a record with that amount is put into the collection and
  written to the store.
\<close>

theorem handleSave_accepts_numeric_prefix:
  "fst (handleSave device 1710500000000 1710500000000 Resolves
      \<lparr>f_amount = ''1.2.3'', f_category = ''Food'', f_date = ''03/15/2024'', f_description = []\<rparr>
      (initialWorld None)) = resetForm \<and>
   alerts (snd (handleSave device 1710500000000 1710500000000 Resolves
      \<lparr>f_amount = ''1.2.3'', f_category = ''Food'', f_date = ''03/15/2024'', f_description = []\<rparr>
      (initialWorld None))) = [] \<and>
   map amount (expenses (snd (handleSave device 1710500000000 1710500000000 Resolves
      \<lparr>f_amount = ''1.2.3'', f_category = ''Food'', f_date = ''03/15/2024'', f_description = []\<rparr>
      (initialWorld None)))) = [Fin (6 / 5)] \<and>
   storage (snd (handleSave device 1710500000000 1710500000000 Resolves
      \<lparr>f_amount = ''1.2.3'', f_category = ''Food'', f_date = ''03/15/2024'', f_description = []\<rparr>
      (initialWorld None))) \<noteq> None"
proof -
  have v: "valid device
      \<lparr>f_amount = ''1.2.3'', f_category = ''Food'', f_date = ''03/15/2024'', f_description = []\<rparr>"
    by (simp add: valid_def device_def parseFloat_prefix)
  have p: "parseFloat device ''1.2.3'' = Fin (6 / 5)"
    by (simp add: device_def parseFloat_prefix)
  show ?thesis
    by (simp add: handleSave_valid [OF v] handleSaveExpense_def saveExpenses_def Let_def
        newExpenseOf_def initialWorld_def p)
qed

section \<open>Facts about the sample device\<close>

lemma trim_strippedOf: "strippedOf s (trim s)"
  using trim_decomp [of s] trim_ends [of s] by (auto simp: strippedOf_def)

lemma parseFloat_42_50: "decimalParseFloat ''42.50'' = Fin (85 / 2)"
  by (simp add: decimalParseFloat_def isWhiteSpace_def isDigit_def digitsValue_def)

lemma parseFloat_10: "decimalParseFloat ''10'' = Fin 10"
  by (simp add: decimalParseFloat_def isWhiteSpace_def isDigit_def digitsValue_def)

lemma toString_food: "toString 1710500000000 = ''1710500000000''"
  by (simp add: toString_def natToString.simps)

lemma toString_transport: "toString 1710586400000 = ''1710586400000''"
  by (simp add: toString_def natToString.simps)

lemma trim_Food: "trim ''Food'' = ''Food''" "trim ''Transport'' = ''Transport''"
  "trim ''03/15/2024'' = ''03/15/2024''" "trim ''03/16/2024'' = ''03/16/2024''" "trim [] = []"
  by (simp_all add: trim_def isWhiteSpace_def)

lemma valid_foodForm: "valid device foodForm"
  by (simp add: valid_def device_def foodForm_def parseFloat_42_50)

lemma valid_transportForm: "valid device transportForm"
  by (simp add: valid_def device_def transportForm_def parseFloat_10)

lemma newExpenseOf_food: "newExpenseOf device 1710500000000 1710500000000 foodForm = food"
  by (simp add: newExpenseOf_def device_def foodForm_def food_def parseFloat_42_50
      toString_food trim_Food sampleToISOString_def)

lemma newExpenseOf_transport:
  "newExpenseOf device 1710586400000 1710586400000 transportForm = transport"
  by (simp add: newExpenseOf_def device_def transportForm_def transport_def parseFloat_10
      toString_transport trim_Food sampleToISOString_def)

section \<open>What handleSave stores\<close>

text \<open>
  C10. For a candidate that \<open>handleSave\<close> accepts, the category, date and description of
  the stored record are the candidate's texts with leading and trailing white space
  removed. The required-field check reads the texts as typed, so a category or a date of
  white space only passes it and is stored as the empty string.
\<close>

theorem handleSave_stores_trimmed:
  assumes "f_amount fm \<noteq> []" and "f_category fm \<noteq> []" and "f_date fm \<noteq> []"
    and "gt_zero (parseFloat P (f_amount fm))"
  shows "\<exists>e. expenses (snd (handleSave P t_id t_ts wr fm w)) = e # expenses w \<and>
           category e = trim (f_category fm) \<and> strippedOf (f_category fm) (category e) \<and>
           date e = trim (f_date fm) \<and> strippedOf (f_date fm) (date e) \<and>
           description e = trim (f_description fm) \<and>
           strippedOf (f_description fm) (description e) \<and>
           (list_all isWhiteSpace (f_category fm) \<longrightarrow> category e = []) \<and>
           (list_all isWhiteSpace (f_date fm) \<longrightarrow> date e = [])"
proof -
  from assms have "valid P fm"
    by (simp add: valid_def)
  then have "expenses (snd (handleSave P t_id t_ts wr fm w)) =
      newExpenseOf P t_id t_ts fm # expenses w"
    by (rule expenses_handleSave)
  moreover have "category (newExpenseOf P t_id t_ts fm) = trim (f_category fm)"
    and "date (newExpenseOf P t_id t_ts fm) = trim (f_date fm)"
    and "description (newExpenseOf P t_id t_ts fm) = trim (f_description fm)"
    by (simp_all add: newExpenseOf_def)
  ultimately show ?thesis
    by (simp add: trim_strippedOf trim_all_ws)
qed

theorem handleSave_stores_trimmed_witness:
  "map category (expenses (snd (handleSave device 1710500000000 1710500000000 Resolves
      \<lparr>f_amount = ''42.50'', f_category = ''   '', f_date = '' 03/15/2024 '',
       f_description = ''  lunch''\<rparr> (initialWorld None)))) = [[]] \<and>
   map date (expenses (snd (handleSave device 1710500000000 1710500000000 Resolves
      \<lparr>f_amount = ''42.50'', f_category = ''   '', f_date = '' 03/15/2024 '',
       f_description = ''  lunch''\<rparr> (initialWorld None)))) = [''03/15/2024''] \<and>
   map description (expenses (snd (handleSave device 1710500000000 1710500000000 Resolves
      \<lparr>f_amount = ''42.50'', f_category = ''   '', f_date = '' 03/15/2024 '',
       f_description = ''  lunch''\<rparr> (initialWorld None)))) = [''lunch'']"
proof -
  have h: "gt_zero (parseFloat device ''42.50'')"
    by (simp add: device_def parseFloat_42_50)
  have t: "trim '' 03/15/2024 '' = ''03/15/2024''" "trim ''  lunch'' = ''lunch''"
    by (simp_all add: trim_def isWhiteSpace_def)
  have e: "expenses (initialWorld None) = []"
    by (simp add: initialWorld_def)
  have a: "list_all isWhiteSpace ''   ''"
    by (simp add: isWhiteSpace_def)
  show ?thesis
    using h a handleSave_stores_trimmed [of "\<lparr>f_amount = ''42.50'', f_category = ''   '',
      f_date = '' 03/15/2024 '', f_description = ''  lunch''\<rparr>" device 1710500000000
      1710500000000 Resolves "initialWorld None"]
    by (auto simp: t e)
qed

lemma expenses_afterFood: "expenses afterFood = [food]"
  by (simp add: afterFood_def expenses_handleSave valid_foodForm newExpenseOf_food initialWorld_def)

section \<open>Appending\<close>

text \<open>
  C2. For a candidate that passes the checks, \<open>handleSave\<close> builds one record, with the
  decimal text of the \<open>Date.now()\<close> reading as id, the ISO text of the \<open>new Date()\<close>
  reading as timestamp, the parsed amount and the trimmed texts, and puts it in front of the
  collection; the form is reset. The id is new to the collection when no record carries
  that text already.
\<close>

theorem handleSave_prepends:
  assumes "valid P fm"
  shows "fst (handleSave P t_id t_ts wr fm w) = resetForm \<and>
         expenses (snd (handleSave P t_id t_ts wr fm w)) =
           \<lparr>id' = toString t_id, amount = parseFloat P (f_amount fm),
            category = trim (f_category fm), date = trim (f_date fm),
            description = trim (f_description fm), timestamp = toISOString P t_ts\<rparr>
           # expenses w \<and>
         length (expenses (snd (handleSave P t_id t_ts wr fm w))) = Suc (length (expenses w)) \<and>
         (toString t_id \<notin> id' ` set (expenses w) \<longrightarrow>
            length (filter (\<lambda>e. id' e = toString t_id)
              (expenses (snd (handleSave P t_id t_ts wr fm w)))) = 1)"
proof -
  have new: "expenses (snd (handleSave P t_id t_ts wr fm w)) =
      newExpenseOf P t_id t_ts fm # expenses w"
    using assms by (rule expenses_handleSave)
  have "toString t_id \<notin> id' ` set (expenses w) \<Longrightarrow>
      filter (\<lambda>e. id' e = toString t_id) (expenses w) = []"
    by (fastforce simp: filter_empty_conv image_iff)
  with new assms show ?thesis
    by (simp add: handleSave_valid) (simp add: newExpenseOf_def)
qed

theorem handleSave_prepends_witness:
  "handleSave device 1710586400000 1710586400000 Resolves transportForm afterFood =
     (resetForm, snd (handleSave device 1710586400000 1710586400000 Resolves transportForm afterFood)) \<and>
   expenses (snd (handleSave device 1710586400000 1710586400000 Resolves transportForm afterFood))
     = [transport, food] \<and>
   filter (\<lambda>e. id' e = ''1710586400000'')
     (expenses (snd (handleSave device 1710586400000 1710586400000 Resolves transportForm afterFood)))
     = [transport]"
proof -
  have "toString 1710586400000 \<notin> id' ` set (expenses afterFood)"
    by (simp add: expenses_afterFood toString_transport food_def)
  then show ?thesis
    using valid_transportForm
      handleSave_prepends [of device transportForm 1710586400000 1710586400000 Resolves afterFood]
    by (simp add: expenses_handleSave newExpenseOf_transport expenses_afterFood
        transport_def food_def prod_eq_iff)
qed

text \<open>
  Two saves within one millisecond: the second record gets the id of the first, so the id
  that \<open>handleSave\<close> assigns is not always new to the collection.
\<close>

theorem handleSave_id_not_fresh:
  "valid device transportForm \<and>
   id' (hd (expenses (snd (handleSave device 1710500000000 1710500000000 Resolves
                             transportForm afterFood))))
     \<in> id' ` set (expenses afterFood)"
  by (simp add: valid_transportForm expenses_handleSave expenses_afterFood newExpenseOf_def
      toString_food food_def)

section \<open>Identifiers\<close>

lemma expenses_alert: "expenses (alert title message w) = expenses w"
  by (simp add: alert_def)

lemma expenses_deleteExpense:
  "expenses (deleteExpense P pressed wr i w) =
     (case pressed of Cancel \<Rightarrow> expenses w
      | Delete \<Rightarrow> filter (\<lambda>expense. id' expense \<noteq> i) (expenses w))"
  by (cases pressed)
    (simp_all add: deleteExpense_def Let_def expenses_saveExpenses expenses_alert)

lemma deleteExpense_keeps_distinct:
  assumes "distinct (map id' (expenses w))"
  shows "distinct (map id' (expenses (deleteExpense P pressed wr i w)))"
    and "set (expenses (deleteExpense P pressed wr i w)) \<subseteq> set (expenses w)"
  using assms
  by (cases pressed; simp add: expenses_deleteExpense distinct_map_filter)+

text \<open>
  C9. The id of a record is the decimal text of the clock reading at its creation, and no
  operation rewrites a record: saving puts the new record in front of the unchanged old
  ones and deleting filters. Hence two saves at different clock readings give different
  ids, and a collection whose ids are pairwise distinct keeps them so under deletions and
  under saves whose clock text is not yet an id of the collection.
\<close>

theorem ids_distinct_when_clock_differs:
  assumes "distinct (map id' (expenses w))"
    and "valid P fm1" and "valid P fm2" and "t1 \<noteq> t2"
    and "toString t1 \<notin> id' ` set (expenses w)"
    and "toString t2 \<notin> id' ` set (expenses w)"
  shows "let w1 = snd (handleSave P t1 s1 wr1 fm1 w);
             w2 = snd (handleSave P t2 s2 wr2 fm2 w1);
             w3 = deleteExpense P pressed wr3 i w2
         in expenses w1 = newExpenseOf P t1 s1 fm1 # expenses w \<and>
            expenses w2 = newExpenseOf P t2 s2 fm2 # newExpenseOf P t1 s1 fm1 # expenses w \<and>
            id' (newExpenseOf P t1 s1 fm1) = toString t1 \<and>
            id' (newExpenseOf P t2 s2 fm2) = toString t2 \<and>
            toString t1 \<noteq> toString t2 \<and>
            distinct (map id' (expenses w1)) \<and>
            distinct (map id' (expenses w2)) \<and>
            distinct (map id' (expenses w3)) \<and>
            set (expenses w3) \<subseteq> set (expenses w2) \<and>
            distinct (map id' (expenses (deleteExpense P pressed wr3 i w))) \<and>
            set (expenses (deleteExpense P pressed wr3 i w)) \<subseteq> set (expenses w)"
proof -
  define w1 where "w1 = snd (handleSave P t1 s1 wr1 fm1 w)"
  define w2 where "w2 = snd (handleSave P t2 s2 wr2 fm2 w1)"
  define w3 where "w3 = deleteExpense P pressed wr3 i w2"
  have ne: "toString t1 \<noteq> toString t2"
    using assms(4) toString_inj by blast
  have e1: "expenses w1 = newExpenseOf P t1 s1 fm1 # expenses w"
    unfolding w1_def using assms(2) by (rule expenses_handleSave)
  have e2: "expenses w2 = newExpenseOf P t2 s2 fm2 # newExpenseOf P t1 s1 fm1 # expenses w"
    unfolding w2_def using assms(3) by (simp add: expenses_handleSave e1)
  have i1: "id' (newExpenseOf P t1 s1 fm1) = toString t1"
    and i2: "id' (newExpenseOf P t2 s2 fm2) = toString t2"
    by (simp_all add: newExpenseOf_def)
  have d1: "distinct (map id' (expenses w1))"
    using assms(1,5) by (simp add: e1 i1)
  have d2: "distinct (map id' (expenses w2))"
    using assms(1,5,6) ne by (simp add: e2 i1 i2) 
  have d3: "distinct (map id' (expenses w3))"
    unfolding w3_def using d2
    by (cases pressed) (simp_all add: expenses_deleteExpense distinct_map_filter)
  have s3: "set (expenses w3) \<subseteq> set (expenses w2)"
    unfolding w3_def by (cases pressed) (auto simp: expenses_deleteExpense)
  note d0 = deleteExpense_keeps_distinct [OF assms(1), of P pressed wr3 i]
  show ?thesis
    using e1 e2 i1 i2 ne d1 d2 d3 s3 d0
    unfolding w1_def w2_def w3_def Let_def by blast
qed

theorem ids_distinct_when_clock_differs_witness:
  "map id' (expenses (snd (handleSave device 1710586400000 1710586400000 Resolves transportForm
      (snd (handleSave device 1710500000000 1710500000000 Resolves foodForm (initialWorld None))))))
     = [''1710586400000'', ''1710500000000''] \<and>
   distinct (map id' (expenses (snd (handleSave device 1710586400000 1710586400000 Resolves
      transportForm
      (snd (handleSave device 1710500000000 1710500000000 Resolves foodForm (initialWorld None)))))))"
proof -
  have "distinct (map id' (expenses (initialWorld None)))"
    and "toString 1710500000000 \<notin> id' ` set (expenses (initialWorld None))"
    and "toString 1710586400000 \<notin> id' ` set (expenses (initialWorld None))"
    and "(1710500000000 :: int) \<noteq> 1710586400000"
    by (simp_all add: initialWorld_def)
  then show ?thesis
    using valid_foodForm valid_transportForm
      ids_distinct_when_clock_differs [of "initialWorld None" device foodForm transportForm
        1710500000000 1710586400000 1710500000000 Resolves 1710586400000 Resolves Cancel
        Resolves "[]"]
    by (simp add: Let_def toString_food toString_transport initialWorld_def)
qed

text \<open>Two saves within one millisecond leave two records with one id.\<close>

theorem same_millisecond_same_id:
  "valid device foodForm \<and> valid device transportForm \<and>
   map id' (expenses (snd (handleSave device 1710500000000 1710500000000 Resolves transportForm
      (snd (handleSave device 1710500000000 1710500000000 Resolves foodForm (initialWorld None))))))
     = [''1710500000000'', ''1710500000000''] \<and>
   \<not> distinct (map id' (expenses (snd (handleSave device 1710500000000 1710500000000 Resolves
      transportForm
      (snd (handleSave device 1710500000000 1710500000000 Resolves foodForm (initialWorld None)))))))"
  by (simp add: valid_foodForm valid_transportForm expenses_handleSave newExpenseOf_def
      toString_food initialWorld_def)

section \<open>Persisting\<close>

lemma saveExpenses_Resolves:
  "saveExpenses P Resolves xs w = w\<lparr>storage := Some (stringify P xs)\<rparr>"
  by (simp add: saveExpenses_def)

lemma saveExpenses_Rejects:
  "saveExpenses P Rejects xs w =
     w\<lparr>alerts := alerts w @ [(''Error'', ''Failed to save expenses'')],
       console := console w @ [''Error saving expenses:'']\<rparr>"
  by (simp add: saveExpenses_def alert_def console_error_def)

lemma device_simps:
  "parseFloat device = decimalParseFloat" "plus device = samplePlus"
  "toISOString device = sampleToISOString"
  "newDate device = sampleNewDate" "getMonth device = sampleGetMonth"
  "getFullYear device = sampleGetFullYear" "stringify device = sampleStringify"
  "parse device = sampleParse"
  by (simp_all add: device_def)

lemma storage_afterFood: "storage afterFood = Some (sampleStringify [food])"
  by (simp add: afterFood_def handleSave_valid [OF valid_foodForm] newExpenseOf_food
      handleSaveExpense_def saveExpenses_Resolves Let_def initialWorld_def device_simps)

text \<open>
  C3. A save or a confirmed deletion whose write resolves leaves the serialization of the
  new collection in the store. When the write rejects, the collection is updated all the
  same, the store keeps its old value, and an error alert is shown. The store never holds
  anything but its old value or the whole new serialization.
\<close>

theorem storage_follows_successful_writes:
  "(valid P fm \<longrightarrow>
      storage (snd (handleSave P t_id t_ts Resolves fm w)) =
        Some (stringify P (expenses (snd (handleSave P t_id t_ts Resolves fm w)))) \<and>
      storage (snd (handleSave P t_id t_ts Rejects fm w)) = storage w \<and>
      expenses (snd (handleSave P t_id t_ts Rejects fm w)) =
        newExpenseOf P t_id t_ts fm # expenses w) \<and>
   storage (handleSaveExpense P Resolves e w) =
     Some (stringify P (expenses (handleSaveExpense P Resolves e w))) \<and>
   storage (deleteExpense P Delete Resolves i w) =
     Some (stringify P (expenses (deleteExpense P Delete Resolves i w))) \<and>
   storage (handleSaveExpense P Rejects e w) = storage w \<and>
   expenses (handleSaveExpense P Rejects e w) = e # expenses w \<and>
   alerts (handleSaveExpense P Rejects e w) =
     alerts w @ [(''Error'', ''Failed to save expenses'')] \<and>
   storage (deleteExpense P Delete Rejects i w) = storage w \<and>
   expenses (deleteExpense P Delete Rejects i w) =
     filter (\<lambda>expense. id' expense \<noteq> i) (expenses w) \<and>
   alerts (deleteExpense P Delete Rejects i w) =
     alerts w @ [(''Delete Expense'', ''Are you sure you want to delete this expense?''),
                 (''Error'', ''Failed to save expenses'')]"
  by (simp add: handleSave_valid handleSaveExpense_def deleteExpense_def saveExpenses_Resolves
      saveExpenses_Rejects alert_def Let_def)

theorem storage_follows_successful_writes_witness:
  "storage (snd (handleSave device 1710500000000 1710500000000 Resolves foodForm
      (initialWorld None))) = Some (sampleStringify [food]) \<and>
   storage (snd (handleSave device 1710500000000 1710500000000 Rejects foodForm
      (initialWorld None))) = None \<and>
   expenses (snd (handleSave device 1710500000000 1710500000000 Rejects foodForm
      (initialWorld None))) = [food]"
  using valid_foodForm
    storage_follows_successful_writes [of device foodForm 1710500000000 1710500000000
      "initialWorld None"]
  by (simp add: expenses_handleSave newExpenseOf_food device_simps initialWorld_def)

text \<open>The write of the first save rejects: the collection holds the record, the store nothing.\<close>

theorem rejected_write_leaves_store_behind:
  "expenses (handleSaveExpense device Rejects food (initialWorld None)) = [food] \<and>
   storage (handleSaveExpense device Rejects food (initialWorld None)) = None \<and>
   storage (handleSaveExpense device Rejects food (initialWorld None)) \<noteq>
     Some (stringify device (expenses (handleSaveExpense device Rejects food (initialWorld None))))"
  by (simp add: handleSaveExpense_def saveExpenses_Rejects Let_def initialWorld_def)

section \<open>Deleting\<close>

lemma filter_distinct_id:
  assumes "distinct (map id' xs)" and "e \<in> set xs"
  shows "\<exists>ys zs. xs = ys @ e # zs \<and> filter (\<lambda>x. id' x \<noteq> id' e) xs = ys @ zs"
proof -
  from assms(2) obtain ys zs where xs: "xs = ys @ e # zs"
    by (auto dest: split_list)
  with assms(1) have "id' e \<notin> id' ` set ys" and "id' e \<notin> id' ` set zs"
    by auto
  then have "filter (\<lambda>x. id' x \<noteq> id' e) ys = ys" and "filter (\<lambda>x. id' x \<noteq> id' e) zs = zs"
    by (fastforce simp: filter_id_conv image_iff)+
  with xs show ?thesis
    by auto
qed

text \<open>
  C7. Once the user confirms, \<open>deleteExpense\<close> keeps exactly the records whose id differs
  from the given one, in their order; when the ids are pairwise distinct that removes the
  one record carrying the id. The result is handed to \<open>saveExpenses\<close>, which stores it if the
  write resolves. For an id that no record carries the collection is unchanged, and nothing
  but the confirmation dialog is shown if the write resolves.
\<close>

theorem deleteExpense_removes_by_id:
  "expenses (deleteExpense P Delete wr i w) = filter (\<lambda>expense. id' expense \<noteq> i) (expenses w) \<and>
   set (expenses (deleteExpense P Delete wr i w)) = {e \<in> set (expenses w). id' e \<noteq> i} \<and>
   (distinct (map id' (expenses w)) \<longrightarrow>
      (\<forall>e \<in> set (expenses w). id' e = i \<longrightarrow>
         (\<exists>ys zs. expenses w = ys @ e # zs \<and>
                  expenses (deleteExpense P Delete wr i w) = ys @ zs))) \<and>
   storage (deleteExpense P Delete Resolves i w) =
     Some (stringify P (filter (\<lambda>expense. id' expense \<noteq> i) (expenses w))) \<and>
   (i \<notin> id' ` set (expenses w) \<longrightarrow>
      expenses (deleteExpense P Delete wr i w) = expenses w \<and>
      alerts (deleteExpense P Delete Resolves i w) =
        alerts w @ [(''Delete Expense'', ''Are you sure you want to delete this expense?'')])"
proof -
  have 1: "expenses (deleteExpense P Delete wr i w) =
      filter (\<lambda>expense. id' expense \<noteq> i) (expenses w)"
    by (simp add: expenses_deleteExpense)
  have 2: "distinct (map id' (expenses w)) \<longrightarrow>
      (\<forall>e \<in> set (expenses w). id' e = i \<longrightarrow>
         (\<exists>ys zs. expenses w = ys @ e # zs \<and>
                  expenses (deleteExpense P Delete wr i w) = ys @ zs))"
    using filter_distinct_id [of "expenses w"] by (auto simp: 1)
  have 3: "i \<notin> id' ` set (expenses w) \<longrightarrow>
      filter (\<lambda>expense. id' expense \<noteq> i) (expenses w) = expenses w"
    by (auto simp: filter_id_conv)
  have 4: "storage (deleteExpense P Delete Resolves i w) =
      Some (stringify P (filter (\<lambda>expense. id' expense \<noteq> i) (expenses w)))"
    and 5: "alerts (deleteExpense P Delete Resolves i w) =
      alerts w @ [(''Delete Expense'', ''Are you sure you want to delete this expense?'')]"
    by (simp_all add: deleteExpense_def saveExpenses_Resolves alert_def Let_def)
  have 6: "set (expenses (deleteExpense P Delete wr i w)) = {e \<in> set (expenses w). id' e \<noteq> i}"
    by (auto simp: 1)
  from 1 2 3 4 5 6 show ?thesis
    by simp
qed

theorem deleteExpense_removes_by_id_witness:
  "expenses (deleteExpense device Delete Resolves ''1710500000000''
      (afterFood\<lparr>expenses := [transport, food]\<rparr>)) = [transport] \<and>
   storage (deleteExpense device Delete Resolves ''1710500000000''
      (afterFood\<lparr>expenses := [transport, food]\<rparr>)) = Some (sampleStringify [transport]) \<and>
   expenses (deleteExpense device Delete Resolves ''7''
      (afterFood\<lparr>expenses := [transport, food]\<rparr>)) = [transport, food]"
  using deleteExpense_removes_by_id [of device Resolves "''1710500000000''"
      "afterFood\<lparr>expenses := [transport, food]\<rparr>"]
    deleteExpense_removes_by_id [of device Resolves "''7''"
      "afterFood\<lparr>expenses := [transport, food]\<rparr>"]
  by (simp add: food_def transport_def device_simps)

text \<open>
  Two expenses saved within one millisecond carry one id, and deleting by that id removes
  both. And when the write of a confirmed deletion rejects, the record has left the
  collection while the store still holds it.
\<close>

theorem deletion_takes_both_or_leaves_store:
  "length (expenses (snd (handleSave device 1710500000000 1710500000000 Resolves transportForm
      afterFood))) = 2 \<and>
   expenses (deleteExpense device Delete Resolves ''1710500000000''
      (snd (handleSave device 1710500000000 1710500000000 Resolves transportForm afterFood)))
     = [] \<and>
   expenses afterFood = [food] \<and>
   storage afterFood = Some (stringify device [food]) \<and>
   expenses (deleteExpense device Delete Rejects ''1710500000000'' afterFood) = [] \<and>
   storage (deleteExpense device Delete Rejects ''1710500000000'' afterFood) =
     Some (stringify device [food])"
proof -
  have "expenses (snd (handleSave device 1710500000000 1710500000000 Resolves transportForm
      afterFood)) = [newExpenseOf device 1710500000000 1710500000000 transportForm, food]"
    by (simp add: expenses_handleSave [OF valid_transportForm] expenses_afterFood)
  moreover have "id' (newExpenseOf device 1710500000000 1710500000000 transportForm) =
      ''1710500000000''"
    by (simp add: newExpenseOf_def toString_food)
  moreover have "id' food = ''1710500000000''"
    by (simp add: food_def)
  ultimately have "length (expenses (snd (handleSave device 1710500000000 1710500000000
      Resolves transportForm afterFood))) = 2"
    and "expenses (deleteExpense device Delete Resolves ''1710500000000''
      (snd (handleSave device 1710500000000 1710500000000 Resolves transportForm afterFood)))
     = []"
    by (simp_all add: expenses_deleteExpense)
  moreover have "expenses afterFood = [food]"
    and "storage afterFood = Some (stringify device [food])"
    and "expenses (deleteExpense device Delete Rejects ''1710500000000'' afterFood) = []"
    and "storage (deleteExpense device Delete Rejects ''1710500000000'' afterFood) =
      Some (stringify device [food])"
    by (simp_all add: expenses_afterFood storage_afterFood expenses_deleteExpense food_def
        deleteExpense_def saveExpenses_Rejects alert_def Let_def device_simps)
  ultimately show ?thesis
    by simp
qed

section \<open>Loading\<close>

lemma loadExpenses_nothing_stored:
  assumes "storage w = None \<or> storage w = Some []"
  shows "loadExpenses P Resolves w = w\<lparr>loading := False\<rparr>"
  using assms by (auto simp: loadExpenses_def Let_def)

lemma loadExpenses_unreadable:
  assumes "storage w = Some s" and "s \<noteq> []"
    and "parse P s = SyntaxError \<or> parse P s = NotSortable"
  shows "loadExpenses P Resolves w = (loadFailed w)\<lparr>loading := False\<rparr>"
  using assms by (auto simp: loadExpenses_def Let_def loadFailed_def alert_def console_error_def)

lemma loadExpenses_Rejects:
  "loadExpenses P Rejects w = (loadFailed w)\<lparr>loading := False\<rparr>"
  by (simp add: loadExpenses_def Let_def loadFailed_def alert_def console_error_def)

lemma loadExpenses_Parsed:
  assumes "storage w = Some s" and "s \<noteq> []" and "parse P s = Parsed xs"
  shows "loadExpenses P Resolves w =
           w\<lparr>expenses := array_sort (newestFirst P) xs, loading := False\<rparr>"
  using assms by (simp add: loadExpenses_def Let_def)

text \<open>
  C5. \<open>loadExpenses\<close> leaves the collection as it was, which at the start of the process is
  empty, when nothing (or the empty text) is stored, and also when the stored text cannot be
  parsed or is no array; in the latter case, as when the read itself rejects, it logs the
  error and shows the alert \<open>Failed to load expenses\<close>. In every case it ends with the
  loading flag cleared.
\<close>

theorem loadExpenses_keeps_collection:
  "(storage w = None \<or> storage w = Some [] \<longrightarrow>
      expenses (loadExpenses P Resolves w) = expenses w \<and>
      alerts (loadExpenses P Resolves w) = alerts w \<and>
      \<not> loading (loadExpenses P Resolves w)) \<and>
   (storage w = Some s \<and> s \<noteq> [] \<and> (parse P s = SyntaxError \<or> parse P s = NotSortable) \<longrightarrow>
      expenses (loadExpenses P Resolves w) = expenses w \<and>
      alerts (loadExpenses P Resolves w) = alerts w @ [(''Error'', ''Failed to load expenses'')] \<and>
      console (loadExpenses P Resolves w) = console w @ [''Error loading expenses:''] \<and>
      \<not> loading (loadExpenses P Resolves w)) \<and>
   expenses (loadExpenses P Rejects w) = expenses w \<and>
   alerts (loadExpenses P Rejects w) = alerts w @ [(''Error'', ''Failed to load expenses'')] \<and>
   console (loadExpenses P Rejects w) = console w @ [''Error loading expenses:''] \<and>
   \<not> loading (loadExpenses P Rejects w) \<and>
   expenses (loadExpenses P Resolves (initialWorld None)) = [] \<and>
   (s \<noteq> [] \<and> (parse P s = SyntaxError \<or> parse P s = NotSortable) \<longrightarrow>
      expenses (loadExpenses P Resolves (initialWorld (Some s))) = [] \<and>
      alerts (loadExpenses P Resolves (initialWorld (Some s))) =
        [(''Error'', ''Failed to load expenses'')])"
proof -
  have a: "storage w = None \<or> storage w = Some [] \<Longrightarrow>
      loadExpenses P Resolves w = w\<lparr>loading := False\<rparr>"
    by (rule loadExpenses_nothing_stored)
  have b: "storage w = Some s \<Longrightarrow> s \<noteq> [] \<Longrightarrow>
      parse P s = SyntaxError \<or> parse P s = NotSortable \<Longrightarrow>
      loadExpenses P Resolves w = (loadFailed w)\<lparr>loading := False\<rparr>"
    by (rule loadExpenses_unreadable)
  have c: "loadExpenses P Resolves (initialWorld None) = (initialWorld None)\<lparr>loading := False\<rparr>"
    by (rule loadExpenses_nothing_stored) (simp add: initialWorld_def)
  have d: "s \<noteq> [] \<Longrightarrow> parse P s = SyntaxError \<or> parse P s = NotSortable \<Longrightarrow>
      loadExpenses P Resolves (initialWorld (Some s)) =
        (loadFailed (initialWorld (Some s)))\<lparr>loading := False\<rparr>"
    by (rule loadExpenses_unreadable) (simp_all add: initialWorld_def)
  have f: "expenses (loadFailed v) = expenses v"
    "alerts (loadFailed v) = alerts v @ [(''Error'', ''Failed to load expenses'')]"
    "console (loadFailed v) = console v @ [''Error loading expenses:'']" for v
    by (simp_all add: loadFailed_def alert_def console_error_def)
  have i: "expenses (initialWorld st) = []" "alerts (initialWorld st) = []" for st
    by (simp_all add: initialWorld_def)
  from a b c d show ?thesis
    by (auto simp: f i loadExpenses_Rejects)
qed

lemma sampleParse_garbage: "sampleParse ''not json'' = SyntaxError"
  by (simp add: sampleParse_def sampleCollections_def sampleStringify_def)

theorem loadExpenses_keeps_collection_witness:
  "expenses (loadExpenses device Resolves (initialWorld (Some ''not json''))) = [] \<and>
   alerts (loadExpenses device Resolves (initialWorld (Some ''not json''))) =
     [(''Error'', ''Failed to load expenses'')] \<and>
   expenses (loadExpenses device Resolves (initialWorld None)) = []"
  using loadExpenses_keeps_collection
    [where w = "initialWorld (Some ''not json'')" and s = "''not json''" and P = device]
  by (simp add: device_simps sampleParse_garbage initialWorld_def)

text \<open>
  The write of the first save rejects, so nothing is stored; a refresh then loads from the
  empty store and the collection still holds the record.
\<close>

theorem refresh_with_empty_store_keeps_record:
  "storage (snd (handleSave device 1710500000000 1710500000000 Rejects foodForm
      (initialWorld None))) = None \<and>
   expenses (onRefresh device Resolves
      (snd (handleSave device 1710500000000 1710500000000 Rejects foodForm
         (initialWorld None)))) = [food]"
proof -
  define w1 where
    "w1 = snd (handleSave device 1710500000000 1710500000000 Rejects foodForm (initialWorld None))"
  have s: "storage w1 = None" and e: "expenses w1 = [food]"
    unfolding w1_def
    by (simp_all add: handleSave_valid [OF valid_foodForm] newExpenseOf_food
        handleSaveExpense_def saveExpenses_Rejects Let_def initialWorld_def)
  have "storage (w1\<lparr>refreshing := True\<rparr>) = None"
    using s by simp
  then have "loadExpenses device Resolves (w1\<lparr>refreshing := True\<rparr>) =
      w1\<lparr>refreshing := True, loading := False\<rparr>"
    by (simp add: loadExpenses_nothing_stored)
  then have "expenses (onRefresh device Resolves w1) = [food]"
    by (simp add: onRefresh_def e)
  with s show ?thesis
    unfolding w1_def by simp
qed

section \<open>Statistics\<close>





section \<open>The sort of loadExpenses\<close>

lemma set_insertBy: "set (insertBy cmp x ys) = insert x (set ys)"
  by (induction ys) auto

lemma length_insertBy: "length (insertBy cmp x ys) = Suc (length ys)"
  by (induction ys) auto

lemma set_array_sort: "set (array_sort cmp xs) = set xs"
  by (induction xs) (simp_all add: array_sort_def set_insertBy)

lemma length_array_sort: "length (array_sort cmp xs) = length xs"
  by (induction xs) (simp_all add: array_sort_def length_insertBy)

lemma array_sort_Cons: "array_sort cmp (x # xs) = insertBy cmp x (array_sort cmp xs)"
  by (simp add: array_sort_def)

lemma comesAfter_newestFirst:
  "comesAfter (newestFirst P) a b \<longleftrightarrow>
     (\<exists>ta tb. newDate P (timestamp a) = Some ta \<and> newDate P (timestamp b) = Some tb \<and> ta < tb)"
  by (auto simp: comesAfter_def newestFirst_def split: option.splits)

text \<open>Inserting where every timestamp is a date keeps the order and the ties.\<close>

lemma descending_insertBy:
  assumes "descending P ys" and "\<forall>e \<in> insert x (set ys). newDate P (timestamp e) \<noteq> None"
  shows "descending P (insertBy (newestFirst P) x ys)"
  using assms
proof (induction ys)
  case Nil
  then show ?case by (simp add: descending_def)
next
  case (Cons y ys)
  from Cons.prems obtain tx ty where t: "newDate P (timestamp x) = Some tx"
    "newDate P (timestamp y) = Some ty"
    by auto
  show ?case
  proof (cases "comesAfter (newestFirst P) x y")
    case True
    then have "tx < ty"
      using t by (simp add: comesAfter_newestFirst)
    moreover have "descending P (insertBy (newestFirst P) x ys)"
      using Cons by (simp add: descending_def)
    ultimately show ?thesis
      using True Cons.prems(1) t by (auto simp: descending_def set_insertBy)
  next
    case False
    then have "ty \<le> tx"
      using t by (simp add: comesAfter_newestFirst)
    then show ?thesis
      using False Cons.prems(1) t by (fastforce simp: descending_def)
  qed
qed

lemma descending_array_sort:
  assumes "\<forall>e \<in> set xs. newDate P (timestamp e) \<noteq> None"
  shows "descending P (array_sort (newestFirst P) xs)"
  using assms
proof (induction xs)
  case Nil
  then show ?case by (simp add: array_sort_def descending_def)
next
  case (Cons x xs)
  then show ?case
    by (simp add: array_sort_Cons descending_insertBy set_array_sort)
qed

lemma filter_insertBy:
  "filter (\<lambda>e. newDate P (timestamp e) = Some t) (insertBy (newestFirst P) x ys) =
     filter (\<lambda>e. newDate P (timestamp e) = Some t) (x # ys)"
proof (induction ys)
  case Nil
  then show ?case by simp
next
  case (Cons y ys)
  show ?case
  proof (cases "comesAfter (newestFirst P) x y")
    case True
    then have "\<not> (newDate P (timestamp x) = Some t \<and> newDate P (timestamp y) = Some t)"
      by (auto simp: comesAfter_newestFirst)
    with True Cons show ?thesis
      by auto
  next
    case False
    then show ?thesis by simp
  qed
qed

lemma filter_array_sort:
  "filter (\<lambda>e. newDate P (timestamp e) = Some t) (array_sort (newestFirst P) xs) =
     filter (\<lambda>e. newDate P (timestamp e) = Some t) xs"
proof (induction xs)
  case Nil
  then show ?case by (simp add: array_sort_def)
next
  case (Cons x xs)
  then show ?case
    by (simp add: array_sort_Cons filter_insertBy)
qed

section \<open>Saving and loading again\<close>

lemma hexValue_digit:
  assumes "k < 16"
  shows "hexValue (''0123456789abcdef'' ! k) = Some k"
proof -
  from assms have "k = 0 \<or> k = 1 \<or> k = 2 \<or> k = 3 \<or> k = 4 \<or> k = 5 \<or> k = 6 \<or> k = 7 \<or>
      k = 8 \<or> k = 9 \<or> k = 10 \<or> k = 11 \<or> k = 12 \<or> k = 13 \<or> k = 14 \<or> k = 15"
    by arith
  then show ?thesis
    by (elim disjE) (simp_all add: hexValue_def)
qed

lemma readString_escapeChar: "readString (escapeChar c @ t) = consTo c (readString t)"
proof -
  consider "c = CHR 0x22" | "c = CHR 0x5C" | "c = CHR 0x08" | "c = CHR 0x0C" | "c = CHR 0x0A"
    | "c = CHR 0x0D" | "c = CHR 0x09"
    | "c \<noteq> CHR 0x22" "c \<noteq> CHR 0x5C" "c \<noteq> CHR 0x08" "c \<noteq> CHR 0x0C" "c \<noteq> CHR 0x0A"
      "c \<noteq> CHR 0x0D" "c \<noteq> CHR 0x09" "of_char c < (32 :: nat)"
    | "c \<noteq> CHR 0x22" "c \<noteq> CHR 0x5C" "\<not> of_char c < (32 :: nat)"
    by fastforce
  then show ?thesis
  proof cases
    case 8
    let ?n = "of_char c :: nat"
    have d: "?n div 16 < 16" "?n mod 16 < 16"
      using 8(8) by simp_all
    have e: "escapeChar c = [CHR 0x5C, CHR ''u'', CHR ''0'', CHR ''0'',
        ''0123456789abcdef'' ! (?n div 16), ''0123456789abcdef'' ! (?n mod 16)]"
      using 8 by (simp add: escapeChar_def)
    have h0: "hexValue CHR ''0'' = Some 0"
      by (simp add: hexValue_def)
    have c: "char_of (16 * (?n div 16) + ?n mod 16) = c"
      by simp
    show ?thesis
      unfolding e by (simp add: h0 hexValue_digit [OF d(1)] hexValue_digit [OF d(2)] c)
  next
    case 9
    then have "escapeChar c = [c]"
      by (auto simp: escapeChar_def)
    with 9 show ?thesis
      by simp
  qed (simp_all add: escapeChar_def unescape_def)
qed

lemma readString_escaped:
  "readString (concat (map escapeChar s) @ CHR 0x22 # rest) = Some (s, rest)"
  by (induction s) (simp_all add: readString_escapeChar consTo_def)

lemma digit_nth:
  assumes "k < 10"
  shows "isDigit (''0123456789'' ! k)"
proof -
  from assms have "k < length ''0123456789''"
    by simp
  then show ?thesis
    unfolding isDigit_def by (rule nth_mem)
qed

lemma digit_value:
  assumes "k < 10"
  shows "of_char (''0123456789'' ! k) - 48 = k"
proof -
  from assms have "k = 0 \<or> k = 1 \<or> k = 2 \<or> k = 3 \<or> k = 4 \<or> k = 5 \<or> k = 6 \<or> k = 7 \<or> k = 8 \<or> k = 9"
    by arith
  then show ?thesis
    by (elim disjE) simp_all
qed

lemma natToString_digits: "\<forall>c \<in> set (natToString n). isDigit c"
proof (induction n rule: natToString.induct)
  case (1 n)
  show ?case
  proof (cases "n < 10")
    case True
    then show ?thesis
      by (subst natToString.simps) (simp add: digit_nth)
  next
    case False
    with 1 show ?thesis
      by (subst natToString.simps) (simp add: digit_nth)
  qed
qed

lemma natToString_no_leading_zero:
  "length (natToString n) = 1 \<or> hd (natToString n) \<noteq> CHR ''0''"
proof -
  have pos: "0 < m \<Longrightarrow> hd (natToString m) \<noteq> CHR ''0''" for m
  proof (induction m rule: natToString.induct)
    case (1 m)
    show ?case
    proof (cases "m < 10")
      case True
      with 1(2) have "m \<in> {1, 2, 3, 4, 5, 6, 7, 8, 9}"
        by auto
      then show ?thesis
        by (subst natToString.simps) auto
    next
      case False
      then have "0 < m div 10"
        by simp
      with 1(1) False have "hd (natToString (m div 10)) \<noteq> CHR ''0''"
        by simp
      with False show ?thesis
        by (subst natToString.simps) (simp add: natToString_nonempty)
    qed
  qed
  show ?thesis
  proof (cases "n = 0")
    case True
    then show ?thesis
      by (simp add: natToString.simps)
  next
    case False
    then show ?thesis
      using pos [of n] by simp
  qed
qed

lemma fracDigits_digits: "r < d \<Longrightarrow> \<forall>c \<in> set (fracDigits n r d). isDigit c"
proof (induction n arbitrary: r)
  case 0
  show ?case
    by simp
next
  case (Suc n)
  from Suc.prems have k: "10 * r div d < 10"
    by (simp add: less_mult_imp_div_less)
  from Suc.prems have "10 * r mod d < d"
    by simp
  then have "\<forall>c \<in> set (fracDigits n (10 * r mod d) d). isDigit c"
    by (rule Suc.IH)
  with k show ?case
    by (simp add: digit_nth)
qed

lemma digitsValue_natToString: "digitsValue (natToString n) = n"
  by (simp add: digitsValue_def readBack)

lemma foldl_digits:
  "foldl (\<lambda>a c. 10 * a + (of_char c - 48)) a ds =
     a * 10 ^ length ds + foldl (\<lambda>a c. 10 * a + (of_char c - 48)) (0 :: nat) ds"
proof (induction ds arbitrary: a)
  case Nil
  show ?case
    by simp
next
  case (Cons c ds)
  let ?f = "\<lambda>a c. 10 * a + (of_char c - 48) :: nat"
  let ?x = "of_char c - 48 :: nat"
  have "foldl ?f a (c # ds) = foldl ?f (10 * a + ?x) ds"
    by simp
  also have "\<dots> = (10 * a + ?x) * 10 ^ length ds + foldl ?f 0 ds"
    by (rule Cons.IH)
  also have "\<dots> = a * 10 ^ length (c # ds) + (?x * 10 ^ length ds + foldl ?f 0 ds)"
    by (simp add: algebra_simps)
  also have "?x * 10 ^ length ds + foldl ?f 0 ds = foldl ?f ?x ds"
    by (rule Cons.IH [symmetric])
  also have "foldl ?f ?x ds = foldl ?f 0 (c # ds)"
    by simp
  finally show ?case .
qed

lemma digitsValue_Cons:
  "digitsValue (c # ds) = (of_char c - 48) * 10 ^ length ds + digitsValue ds"
  using foldl_digits [of "of_char c - 48" ds] by (simp add: digitsValue_def)

lemma digitsValue_Nil: "digitsValue [] = 0"
  by (simp add: digitsValue_def)

lemma next_digit:
  fixes k r d :: rat
  assumes "0 < d"
  shows "k / 10 + (r / d) / 10 = (k * d + r) / (10 * d)"
  using assms by (simp add: field_simps)

lemma frac_exact:
  "r < d \<Longrightarrow> d dvd r * 10 ^ n \<Longrightarrow>
     (of_nat (digitsValue (fracDigits n r d)) / 10 ^ length (fracDigits n r d) :: rat) =
     of_nat r / of_nat d"
proof (induction n arbitrary: r)
  case 0
  then have "r = 0"
    by (auto dest: dvd_imp_le)
  then show ?case
    by (simp add: digitsValue_Nil)
next
  case (Suc n)
  show ?case
  proof (cases "r = 0")
    case True
    then show ?thesis
      by (simp add: digitsValue_Nil)
  next
    case False
    let ?k = "10 * r div d" and ?r = "10 * r mod d"
    let ?ds = "fracDigits n ?r d"
    from Suc.prems have d: "0 < d"
      by simp
    from Suc.prems have k: "?k < 10"
      by (simp add: less_mult_imp_div_less)
    have r: "?r < d"
      using d by simp
    have split: "?k * d + ?r = 10 * r"
      by (rule div_mult_mod_eq)
    have "(?k * d + ?r) * 10 ^ n = 10 * r * 10 ^ n"
      by (simp only: split)
    also have "\<dots> = r * 10 ^ Suc n"
      by simp
    finally have "d dvd (?k * d + ?r) * 10 ^ n"
      using Suc.prems(2) by (simp only:)
    then have "d dvd ?k * d * 10 ^ n + ?r * 10 ^ n"
      by (simp only: distrib_right)
    moreover have "d dvd ?k * d * 10 ^ n"
      by (rule dvd_mult2) (rule dvd_triv_right)
    ultimately have "d dvd ?r * 10 ^ n"
      by (simp only: dvd_add_right_iff)
    with r have ih: "(of_nat (digitsValue ?ds) / 10 ^ length ?ds :: rat) = of_nat ?r / of_nat d"
      by (rule Suc.IH)
    have "(of_nat (digitsValue (fracDigits (Suc n) r d)) / 10 ^ length (fracDigits (Suc n) r d) :: rat)
        = (of_nat ?k * 10 ^ length ?ds + of_nat (digitsValue ?ds)) / (10 * 10 ^ length ?ds)"
      using False by (simp add: digitsValue_Cons digit_value [OF k])
    also have "\<dots> = of_nat ?k / 10 + (of_nat (digitsValue ?ds) / 10 ^ length ?ds) / 10"
      by (simp add: add_divide_distrib)
    also have "\<dots> = of_nat ?k / 10 + (of_nat ?r / of_nat d) / 10"
      by (simp only: ih)
    also have "\<dots> = (of_nat ?k * of_nat d + of_nat ?r :: rat) / (10 * of_nat d)"
      using d by (intro next_digit) simp
    also have "\<dots> = (of_nat (?k * d + ?r) :: rat) / (10 * of_nat d)"
      by (simp only: of_nat_add of_nat_mult)
    also have "\<dots> = (of_nat (10 * r) :: rat) / (10 * of_nat d)"
      by (simp only: split)
    also have "\<dots> = of_nat r / of_nat d"
      by simp
    finally show ?thesis .
  qed
qed

lemma whole_and_fraction:
  assumes "0 < D"
  shows "(of_nat (A div D) + of_nat (A mod D) / of_nat D :: rat) = of_nat A / of_nat D"
proof -
  have "(of_nat A :: rat) = of_nat (A div D * D + A mod D)"
    by (simp only: div_mult_mod_eq)
  also have "\<dots> = of_nat (A div D) * of_nat D + of_nat (A mod D)"
    by (simp only: of_nat_add of_nat_mult)
  finally have "(of_nat A :: rat) / of_nat D =
      (of_nat (A div D) * of_nat D + of_nat (A mod D)) / of_nat D"
    by (simp only:)
  also have "\<dots> = of_nat (A div D) + of_nat (A mod D) / of_nat D"
    using assms by (simp only: add_divide_distrib) simp
  finally show ?thesis
    by (rule sym)
qed

lemma throughJSON_decimal:
  assumes "isDecimal q"
  shows "throughJSON (Fin q) = Fin q"
proof -
  obtain a d where ad: "quotient_of \<bar>q\<bar> = (a, d)"
    by (cases "quotient_of \<bar>q\<bar>")
  then have d: "0 < d"
    by (rule quotient_of_denom_pos)
  from ad have q: "\<bar>q\<bar> = of_int a / of_int d"
    by (rule quotient_of_div)
  have a: "0 \<le> a"
  proof (rule ccontr)
    assume "\<not> 0 \<le> a"
    then have "(of_int a :: rat) / of_int d < 0"
      using d by (simp add: divide_neg_pos)
    with q show False
      by simp
  qed
  define A where "A = nat a"
  define D where "D = nat d"
  have dn: "0 < D"
    using d by (simp add: D_def)
  have "D dvd 10 ^ D"
  proof -
    from assms ad have "d dvd 10 ^ nat d"
      by (simp add: isDecimal_def)
    then have "nat d dvd nat (10 ^ nat d)"
      using d by (simp add: nat_dvd_iff)
    then show ?thesis
      by (simp add: nat_power_eq D_def)
  qed
  then have "D dvd (A mod D) * 10 ^ D"
    by simp
  moreover have "A mod D < D"
    using dn by simp
  ultimately have f: "(of_nat (digitsValue (fracDigits D (A mod D) D)) /
      10 ^ length (fracDigits D (A mod D) D) :: rat) = of_nat (A mod D) / of_nat D"
    by (rule frac_exact [rotated])
  have "(of_nat A :: rat) / of_nat D = of_int a / of_int d"
    using a d by (simp add: A_def D_def)
  with q have v: "(of_nat (A div D) + of_nat (A mod D) / of_nat D :: rat) = \<bar>q\<bar>"
    by (simp only: whole_and_fraction [OF dn])
  have "throughJSON (Fin q) =
      Fin ((if q < 0 then - 1 else 1) *
           (of_nat (digitsValue (natToString (A div D))) +
            of_nat (digitsValue (fracDigits D (A mod D) D)) /
              10 ^ length (fracDigits D (A mod D) D)))"
    by (simp only: throughJSON_def jsnum.case Let_def ad fst_conv snd_conv A_def D_def)
  also have "\<dots> = Fin ((if q < 0 then - 1 else 1) * \<bar>q\<bar>)"
    by (simp only: digitsValue_natToString f v)
  also have "\<dots> = Fin q"
    by simp
  finally show ?thesis .
qed

lemma dvd_power_of_two: "(d :: nat) dvd 2 ^ k \<Longrightarrow> \<exists>j. d = 2 ^ j"
proof (induction k arbitrary: d)
  case 0
  then have "d = 2 ^ 0"
    by simp
  then show ?case
    by blast
next
  case (Suc k)
  show ?case
  proof (cases "even d")
    case True
    then obtain d' where d: "d = 2 * d'"
      by (auto elim: evenE)
    with Suc.prems have "d' dvd 2 ^ k"
      by simp
    then obtain j where "d' = 2 ^ j"
      using Suc.IH by blast
    with d have "d = 2 ^ Suc j"
      by simp
    then show ?thesis
      by blast
  next
    case False
    then have "coprime d 2"
      by simp
    with Suc.prems have "d dvd 2 ^ k"
      by (simp add: coprime_dvd_mult_right_iff)
    then show ?thesis
      by (rule Suc.IH)
  qed
qed

lemma power_of_two_decimal: "(2 :: nat) ^ j dvd 10 ^ 2 ^ j"
proof -
  have "j \<le> 2 ^ j"
  proof (induction j)
    case 0
    show ?case
      by simp
  next
    case (Suc j)
    moreover have "(1 :: nat) \<le> 2 ^ j"
      by simp
    ultimately have "Suc j \<le> 2 ^ j + 2 ^ j"
      by linarith
    then show ?case
      by simp
  qed
  then have "(2 :: nat) ^ j dvd 2 ^ 2 ^ j"
    by (rule le_imp_power_dvd)
  moreover have "(2 :: nat) ^ 2 ^ j dvd 10 ^ 2 ^ j"
    by (rule dvd_power_same) simp
  ultimately show ?thesis
    by (rule dvd_trans)
qed

lemma isDecimal_dyadic: "isDecimal (of_int m / 2 ^ k)"
proof -
  let ?q = "\<bar>of_int m / 2 ^ k\<bar> :: rat"
  obtain a d where ad: "quotient_of ?q = (a, d)"
    by (cases "quotient_of ?q")
  then have d: "0 < d" and c: "coprime a d" and q: "?q = of_int a / of_int d"
    by (rule quotient_of_denom_pos, rule quotient_of_coprime, rule quotient_of_div)
  have "?q = of_int \<bar>m\<bar> / of_int (2 ^ k)"
    by (simp add: abs_divide)
  with q have "(of_int a :: rat) / of_int d = of_int \<bar>m\<bar> / of_int (2 ^ k)"
    by simp
  then have "(of_int a :: rat) * of_int (2 ^ k) = of_int \<bar>m\<bar> * of_int d"
    using d by (simp add: field_simps)
  then have "a * 2 ^ k = \<bar>m\<bar> * d"
    by (simp only: of_int_mult [symmetric] of_int_eq_iff)
  then have "d dvd a * 2 ^ k"
    by simp
  with c have "d dvd 2 ^ k"
    by (simp add: coprime_dvd_mult_right_iff coprime_commute)
  then have "nat d dvd nat (2 ^ k)"
    using d by (simp add: nat_dvd_iff)
  then have "nat d dvd 2 ^ k"
    by (simp add: nat_power_eq)
  then obtain j where j: "nat d = 2 ^ j"
    using dvd_power_of_two by blast
  have "nat d dvd 10 ^ nat d"
    unfolding j by (rule power_of_two_decimal)
  then have "int (nat d) dvd int (10 ^ nat d)"
    by (simp only: int_dvd_int_iff)
  then have "d dvd 10 ^ nat d"
    using d by simp
  then show ?thesis
    unfolding isDecimal_def ad by simp
qed

lemma isDecimal_amount: "isDecimal (85 / 2)"
  by code_simp

lemma readNumber_shape:
  assumes ip: "ip \<noteq> []" "\<forall>c \<in> set ip. isDigit c" "CHR ''-'' \<notin> set ip"
      "length ip = 1 \<or> hd ip \<noteq> CHR ''0''"
    and f: "\<forall>c \<in> set f. isDigit c"
    and rest: "rest = [] \<or> (\<not> isDigit (hd rest) \<and> hd rest \<noteq> CHR ''.'')"
  shows "readNumber ((if neg then ''-'' else []) @ ip @ (if f = [] then [] else CHR ''.'' # f) @ rest) =
     Some (Fin ((if neg then - 1 else 1) *
                (of_nat (digitsValue ip) + of_nat (digitsValue f) / 10 ^ length f)), rest)"
proof -
  let ?fr = "(if f = [] then [] else CHR ''.'' # f) @ rest"
  let ?s = "(if neg then ''-'' else []) @ ip @ ?fr"
  obtain c cs where c: "ip = c # cs"
    using ip(1) by (cases ip) auto
  with ip have cd: "isDigit c" "c \<noteq> CHR ''-''"
    by auto
  then have cn: "c \<noteq> CHR ''n''"
    by (auto simp: isDigit_def)
  have nodot: "\<not> isDigit (CHR ''.'')"
    by (simp add: isDigit_def)
  have n: "take 4 ?s \<noteq> ''null''"
    using cn by (cases cs) (auto simp: c)
  have neg: "(take 1 ?s = ''-'') = neg"
    using cd by (simp add: c)
  have u: "(if neg then drop 1 ?s else ?s) = ip @ ?fr"
    by simp
  have stop: "?fr = [] \<or> \<not> isDigit (hd ?fr)"
    using rest nodot by auto
  have tw: "takeWhile isDigit (ip @ ?fr) = ip"
  proof (cases ?fr)
    case Nil
    then show ?thesis
      using ip(2) by (simp add: takeWhile_eq_all_conv)
  next
    case (Cons x xs)
    with stop have "\<not> isDigit x"
      by simp
    then show ?thesis
      using ip(2) by (simp only: Cons) (simp add: takeWhile_tail)
  qed
  have dw: "dropWhile isDigit (ip @ ?fr) = ?fr"
  proof (cases ?fr)
    case Nil
    then show ?thesis
      using ip(2) by simp
  next
    case (Cons x xs)
    with stop have "\<not> isDigit x"
      by simp
    then show ?thesis
      using ip(2) by (simp only: Cons) (simp add: dropWhile_append2)
  qed
  have twr: "takeWhile isDigit (f @ rest) = f"
  proof (cases rest)
    case Nil
    then show ?thesis
      using f by (simp add: takeWhile_eq_all_conv)
  next
    case (Cons x xs)
    with rest have "\<not> isDigit x"
      by simp
    then show ?thesis
      using f by (simp only: Cons) (simp add: takeWhile_tail)
  qed
  have dwr: "dropWhile isDigit (f @ rest) = rest"
  proof (cases rest)
    case Nil
    then show ?thesis
      using f by simp
  next
    case (Cons x xs)
    with rest have "\<not> isDigit x"
      by simp
    then show ?thesis
      using f by (simp only: Cons) (simp add: dropWhile_append2)
  qed
  show ?thesis
  proof (cases "f = []")
    case True
    then have fr: "?fr = rest"
      by simp
    have "take 1 rest \<noteq> ''.''"
      using rest by (cases rest) auto
    then show ?thesis
      unfolding readNumber_def Let_def
      by (simp only: n neg u tw dw if_False) (use ip(4) in \<open>auto simp: True ip(1) digitsValue_Nil\<close>)
  next
    case False
    then have fr: "?fr = CHR ''.'' # f @ rest"
      by simp
    show ?thesis
      unfolding readNumber_def Let_def
      by (simp only: n neg u tw dw if_False) (use ip(4) in \<open>auto simp: False ip(1) twr dwr\<close>)
  qed
qed

lemma readNumber_numberText:
  assumes "rest = [] \<or> (\<not> isDigit (hd rest) \<and> hd rest \<noteq> CHR ''.'')"
  shows "readNumber (numberText n @ rest) = Some (throughJSON n, rest)"
proof (cases n)
  case (Fin q)
  let ?a = "nat (fst (quotient_of \<bar>q\<bar>))" and ?d = "nat (snd (quotient_of \<bar>q\<bar>))"
  have "0 < snd (quotient_of \<bar>q\<bar>)"
    by (cases "quotient_of \<bar>q\<bar>") (simp add: quotient_of_denom_pos)
  then have "?a mod ?d < ?d"
    by simp
  then have "\<forall>c \<in> set (fracDigits ?d (?a mod ?d) ?d). isDigit c"
    by (rule fracDigits_digits)
  then have "readNumber ((if q < 0 then ''-'' else []) @ natToString (?a div ?d) @
      (if fracDigits ?d (?a mod ?d) ?d = [] then [] else CHR ''.'' # fracDigits ?d (?a mod ?d) ?d) @
      rest) =
     Some (Fin ((if q < 0 then - 1 else 1) *
                (of_nat (digitsValue (natToString (?a div ?d))) +
                 of_nat (digitsValue (fracDigits ?d (?a mod ?d) ?d)) /
                   10 ^ length (fracDigits ?d (?a mod ?d) ?d))), rest)"
    using assms
    by (intro readNumber_shape natToString_nonempty natToString_digits natToString_no_minus
        natToString_no_leading_zero)
  then show ?thesis
    by (simp add: Fin numberText_def throughJSON_def Let_def)
qed (simp_all add: numberText_def throughJSON_def readNumber_def)

lemma expect_append: "expect pre (pre @ t) = Some t"
  by (simp add: expect_def)

lemma readQuoted_stringText: "readQuoted (stringText s @ t) = Some (s, t)"
  by (simp add: readQuoted_def stringText_def readString_escaped)

lemma readObject_objectText: "readObject (objectText e @ rest) = Some (afterJSON e, rest)"
proof -
  let ?s12 = "''}'' @ rest"
  let ?s11 = "stringText (timestamp e) @ ?s12"
  let ?s10 = "('','' @ field ''timestamp'') @ ?s11"
  let ?s9 = "stringText (description e) @ ?s10"
  let ?s8 = "('','' @ field ''description'') @ ?s9"
  let ?s7 = "stringText (date e) @ ?s8"
  let ?s6 = "('','' @ field ''date'') @ ?s7"
  let ?s5 = "stringText (category e) @ ?s6"
  let ?s4 = "('','' @ field ''category'') @ ?s5"
  let ?s3 = "numberText (amount e) @ ?s4"
  let ?s2 = "('','' @ field ''amount'') @ ?s3"
  let ?s1 = "stringText (id' e) @ ?s2"
  let ?s0 = "(''{'' @ field ''id'') @ ?s1"
  have s: "objectText e @ rest = ?s0"
    by (simp add: objectText_def)
  have "\<not> isDigit (CHR '','')"
    by (simp add: isDigit_def)
  then have n: "readNumber ?s3 = Some (throughJSON (amount e), ?s4)"
    by (intro readNumber_numberText) simp
  have "readObject ?s0 = Some (\<lparr>id' = id' e, amount = throughJSON (amount e),
      category = category e, date = date e, description = description e,
      timestamp = timestamp e\<rparr>, rest)"
    unfolding readObject_def
    by (simp only: expect_append readQuoted_stringText n Option.bind.simps prod.case)
  then show ?thesis
    by (simp add: s afterJSON_def)
qed

lemma objectText_Cons: "objectText e = CHR ''{'' # tl (objectText e)"
  by (simp add: objectText_def)

lemma objectText_nonempty: "objectText e \<noteq> []"
  by (simp add: objectText_def)

lemma readItems_commaSeparated:
  "xs \<noteq> [] \<Longrightarrow> length xs \<le> n \<Longrightarrow>
     readItems n (commaSeparated (map objectText xs) @ CHR '']'' # t) = Some (map afterJSON xs, t)"
proof (induction xs arbitrary: n)
  case Nil
  then show ?case
    by simp
next
  case (Cons e xs)
  from Cons.prems obtain m where n: "n = Suc m" and m: "length xs \<le> m"
    by (cases n) auto
  show ?case
  proof (cases xs)
    case Nil
    have "readObject (objectText e @ CHR '']'' # t) = Some (afterJSON e, CHR '']'' # t)"
      by (rule readObject_objectText)
    then show ?thesis
      by (simp add: Nil n)
  next
    case (Cons y ys)
    then have "readItems m (commaSeparated (map objectText xs) @ CHR '']'' # t) =
        Some (map afterJSON xs, t)"
      using m by (intro Cons.IH) simp_all
    moreover have "readObject (objectText e @
        CHR '','' # commaSeparated (map objectText xs) @ CHR '']'' # t) =
        Some (afterJSON e, CHR '','' # commaSeparated (map objectText xs) @ CHR '']'' # t)"
      by (rule readObject_objectText)
    ultimately show ?thesis
      by (simp add: Cons n)
  qed
qed

lemma JSON_stringify_nonempty: "JSON_stringify xs \<noteq> []"
  by (simp add: JSON_stringify_def)

lemma JSON_round_trip: "JSON_parse (JSON_stringify xs) = Parsed (map afterJSON xs)"
proof (cases "xs = []")
  case True
  then show ?thesis
    by (simp add: JSON_parse_def JSON_stringify_def)
next
  case False
  let ?body = "commaSeparated (map objectText xs)"
  from False obtain e es where xs: "xs = e # es"
    by (cases xs) auto
  obtain o' where o: "objectText e = CHR ''{'' # o'"
    using objectText_Cons by blast
  have b: "?body = CHR ''{'' # tl ?body"
    by (cases es) (simp_all add: xs o)
  have "CHR ''['' # ?body @ '']'' \<noteq> ''[]''"
    by (subst b) simp
  moreover have "length xs \<le> length (CHR ''['' # ?body @ '']'')"
  proof -
    have "length ys \<le> length (commaSeparated (map objectText ys))" for ys
    proof (induction ys rule: induct_list012)
      case (2 y)
      then show ?case
        using objectText_nonempty [of y] by (simp add: Suc_leI)
    next
      case (3 y z zs)
      then show ?case
        by simp
    qed simp
    from this [of xs] show ?thesis
      by simp
  qed
  then have "readItems (length (CHR ''['' # ?body @ '']'')) (?body @ CHR '']'' # []) =
      Some (map afterJSON xs, [])"
    using False by (intro readItems_commaSeparated)
  ultimately show ?thesis
    by (simp add: JSON_parse_def JSON_stringify_def)
qed

lemma withJSON_simps:
  "parseFloat (withJSON P) = parseFloat P" "plus (withJSON P) = plus P"
  "toISOString (withJSON P) = toISOString P" "newDate (withJSON P) = newDate P"
  "getMonth (withJSON P) = getMonth P" "getFullYear (withJSON P) = getFullYear P"
  "stringify (withJSON P) = JSON_stringify" "parse (withJSON P) = JSON_parse"
  by (simp_all add: withJSON_def)

lemma withJSON_same:
  "valid (withJSON P) fm = valid P fm"
  "newExpenseOf (withJSON P) t_id t_ts fm = newExpenseOf P t_id t_ts fm"
  "newestFirst (withJSON P) = newestFirst P"
  by (simp_all add: valid_def newExpenseOf_def newestFirst_def withJSON_simps fun_eq_iff)

lemma restart_after_save:
  assumes "valid P fm"
  shows "expenses (loadExpenses (withJSON P) Resolves (initialWorld (storage
           (snd (handleSave (withJSON P) t_id t_ts Resolves fm w))))) =
         array_sort (newestFirst P) (map afterJSON (newExpenseOf P t_id t_ts fm # expenses w))"
proof -
  let ?J = "withJSON P"
  let ?new = "newExpenseOf P t_id t_ts fm"
  let ?saved = "snd (handleSave ?J t_id t_ts Resolves fm w)"
  from assms have v: "valid ?J fm"
    by (simp add: withJSON_same)
  have "storage ?saved = Some (JSON_stringify (?new # expenses w))"
    by (simp add: handleSave_valid [OF v] handleSaveExpense_def saveExpenses_Resolves Let_def
        withJSON_simps withJSON_same)
  then have st: "storage (initialWorld (storage ?saved)) =
      Some (JSON_stringify (?new # expenses w))"
    by (simp add: initialWorld_def)
  have pr: "parse ?J (JSON_stringify (?new # expenses w)) =
      Parsed (map afterJSON (?new # expenses w))"
    by (simp only: withJSON_simps JSON_round_trip)
  have "loadExpenses ?J Resolves (initialWorld (storage ?saved)) =
      (initialWorld (storage ?saved))
        \<lparr>expenses := array_sort (newestFirst ?J) (map afterJSON (?new # expenses w)),
         loading := False\<rparr>"
    using st JSON_stringify_nonempty pr by (rule loadExpenses_Parsed)
  then show ?thesis
    by (simp add: withJSON_same)
qed

lemma array_sort_single: "array_sort cmp [x] = [x]"
  by (simp add: array_sort_def)

text \<open>
  C8. Take a candidate that passes the checks and whose amount is a finite number, and let
  the write of the save and the read after the restart resolve, the text in the store
  written and read as JSON. Then the new process holds the saved collection, sorted: the
  new record with its amount, its trimmed category, date and description, its id and its
  timestamp, and the earlier records as JSON gives them back. A finite number is a finite
  decimal here, as every double is.
\<close>

theorem save_then_restart:
  assumes "valid P fm"
    and "parseFloat P (f_amount fm) = Fin q"
    and "isDecimal q"
  shows "let new = newExpenseOf P t_id t_ts fm;
             saved = snd (handleSave (withJSON P) t_id t_ts Resolves fm w);
             restarted = loadExpenses (withJSON P) Resolves (initialWorld (storage saved))
         in expenses saved = new # expenses w \<and>
            expenses restarted = array_sort (newestFirst P) (new # map afterJSON (expenses w)) \<and>
            length (expenses restarted) = length (expenses saved) \<and>
            new \<in> set (expenses restarted) \<and>
            amount new = Fin q \<and> category new = trim (f_category fm) \<and>
            date new = trim (f_date fm) \<and> description new = trim (f_description fm) \<and>
            id' new = toString t_id \<and> timestamp new = toISOString P t_ts"
proof -
  define new where "new = newExpenseOf P t_id t_ts fm"
  define saved where "saved = snd (handleSave (withJSON P) t_id t_ts Resolves fm w)"
  define restarted where
    "restarted = loadExpenses (withJSON P) Resolves (initialWorld (storage saved))"
  from assms(1) have "valid (withJSON P) fm"
    by (simp add: withJSON_same)
  then have e: "expenses saved = new # expenses w"
    unfolding saved_def new_def by (simp add: expenses_handleSave withJSON_same)
  have a: "amount new = Fin q"
    by (simp add: new_def newExpenseOf_def assms(2))
  then have "afterJSON new = new"
    using throughJSON_decimal [OF assms(3)] by (simp add: afterJSON_def)
  then have r: "expenses restarted = array_sort (newestFirst P) (new # map afterJSON (expenses w))"
    unfolding restarted_def saved_def new_def using restart_after_save [OF assms(1)] by simp
  have l: "length (expenses restarted) = length (expenses saved)"
    by (simp add: r e length_array_sort)
  have m: "new \<in> set (expenses restarted)"
    by (simp add: r set_array_sort)
  have f: "category new = trim (f_category fm)" "date new = trim (f_date fm)"
    "description new = trim (f_description fm)" "id' new = toString t_id"
    "timestamp new = toISOString P t_ts"
    by (simp_all add: new_def newExpenseOf_def)
  from e r l m a f show ?thesis
    unfolding Let_def saved_def [symmetric] restarted_def [symmetric] new_def [symmetric]
    by simp
qed

theorem save_then_restart_witness:
  "expenses (loadExpenses (withJSON device) Resolves (initialWorld (storage
      (snd (handleSave (withJSON device) 1710500000000 1710500000000 Resolves foodForm
         (initialWorld None)))))) = [food]"
proof -
  have "parseFloat device (f_amount foodForm) = Fin (85 / 2)"
    by (simp add: device_simps foodForm_def parseFloat_42_50)
  with valid_foodForm have "let new = newExpenseOf device 1710500000000 1710500000000 foodForm;
      saved = snd (handleSave (withJSON device) 1710500000000 1710500000000 Resolves foodForm
         (initialWorld None));
      restarted = loadExpenses (withJSON device) Resolves (initialWorld (storage saved))
    in expenses saved = new # expenses (initialWorld None) \<and>
       expenses restarted = array_sort (newestFirst device)
         (new # map afterJSON (expenses (initialWorld None))) \<and>
       length (expenses restarted) = length (expenses saved) \<and>
       new \<in> set (expenses restarted) \<and>
       amount new = Fin (85 / 2) \<and> category new = trim (f_category foodForm) \<and>
       date new = trim (f_date foodForm) \<and> description new = trim (f_description foodForm) \<and>
       id' new = toString 1710500000000 \<and>
       timestamp new = toISOString device 1710500000000"
    using isDecimal_amount by (rule save_then_restart)
  then show ?thesis
    by (simp add: Let_def newExpenseOf_food initialWorld_def array_sort_single)
qed

text \<open>
  Two runs in which the record is not there after the restart. In the first the write of
  the save rejects and the store stays empty. In the second every call resolves, but the
  amount text is \<open>Infinity\<close>: it passes the checks of \<open>handleSave\<close>, JSON has no numeral
  for it, and the record comes back with the amount \<open>null\<close>.
\<close>

theorem restart_without_the_record:
  "valid device foodForm \<and>
   expenses (snd (handleSave device 1710500000000 1710500000000 Rejects foodForm
      (initialWorld None))) = [food] \<and>
   expenses (loadExpenses device Resolves (initialWorld (storage
      (snd (handleSave device 1710500000000 1710500000000 Rejects foodForm
         (initialWorld None)))))) = [] \<and>
   valid (withJSON device) (foodForm\<lparr>f_amount := ''Infinity''\<rparr>) \<and>
   map amount (expenses (snd (handleSave (withJSON device) 1710500000000 1710500000000 Resolves
      (foodForm\<lparr>f_amount := ''Infinity''\<rparr>) (initialWorld None)))) = [PosInf] \<and>
   map amount (expenses (loadExpenses (withJSON device) Resolves (initialWorld (storage
      (snd (handleSave (withJSON device) 1710500000000 1710500000000 Resolves
         (foodForm\<lparr>f_amount := ''Infinity''\<rparr>) (initialWorld None))))))) = [Null]"
proof -
  define saved where
    "saved = snd (handleSave device 1710500000000 1710500000000 Rejects foodForm (initialWorld None))"
  have s: "storage saved = None" and e: "expenses saved = [food]"
    unfolding saved_def
    by (simp_all add: handleSave_valid [OF valid_foodForm] newExpenseOf_food
        handleSaveExpense_def saveExpenses_Rejects Let_def initialWorld_def)
  have "loadExpenses device Resolves (initialWorld None) = (initialWorld None)\<lparr>loading := False\<rparr>"
    by (rule loadExpenses_nothing_stored) (simp add: initialWorld_def)
  then have "expenses (loadExpenses device Resolves (initialWorld (storage saved))) = []"
    by (simp add: s initialWorld_def)
  with e valid_foodForm have first: "valid device foodForm \<and> expenses saved = [food] \<and>
      expenses (loadExpenses device Resolves (initialWorld (storage saved))) = []"
    by simp
  let ?fm = "foodForm\<lparr>f_amount := ''Infinity''\<rparr>"
  have p: "decimalParseFloat ''Infinity'' = PosInf"
    by (simp add: decimalParseFloat_def isWhiteSpace_def isDigit_def)
  then have v: "valid device ?fm"
    by (simp add: valid_def foodForm_def device_simps)
  then have vj: "valid (withJSON device) ?fm"
    by (simp add: withJSON_same)
  have a: "amount (newExpenseOf device 1710500000000 1710500000000 ?fm) = PosInf"
    by (simp add: newExpenseOf_def device_simps p)
  have "expenses (snd (handleSave (withJSON device) 1710500000000 1710500000000 Resolves ?fm
      (initialWorld None))) = [newExpenseOf device 1710500000000 1710500000000 ?fm]"
    by (simp add: expenses_handleSave [OF vj] withJSON_same initialWorld_def)
  then have second: "map amount (expenses (snd (handleSave (withJSON device) 1710500000000
      1710500000000 Resolves ?fm (initialWorld None)))) = [PosInf]"
    by (simp add: a)
  have third: "map amount (expenses (loadExpenses (withJSON device) Resolves (initialWorld (storage
      (snd (handleSave (withJSON device) 1710500000000 1710500000000 Resolves ?fm
         (initialWorld None))))))) = [Null]"
    by (simp only: restart_after_save [OF v])
      (simp add: initialWorld_def array_sort_single afterJSON_def a throughJSON_def)
  from first vj second third show ?thesis
    unfolding saved_def by simp
qed

section \<open>The order of the list\<close>

lemma descending_Cons:
  "descending P (e # xs) \<longleftrightarrow>
     (\<forall>x \<in> set xs. \<forall>te tx. newDate P (timestamp e) = Some te \<longrightarrow>
        newDate P (timestamp x) = Some tx \<longrightarrow> tx \<le> te) \<and> descending P xs"
  by (simp add: descending_def)

text \<open>
  C4. \<open>loadExpenses\<close> puts the stored records in the order of their timestamps, newest
  first, keeping records of equal time in their stored order, when every timestamp is a
  date. Saving does not sort: it puts the new record at index 0 in front of the others, so
  after two saves the second record is at index 0 and the first at index 1, and the list
  stays ordered as long as no record in it is newer than the one saved.
\<close>

theorem load_sorts_save_prepends:
  "(storage w = Some s \<and> s \<noteq> [] \<and> parse P s = Parsed xs \<and>
    (\<forall>e \<in> set xs. newDate P (timestamp e) \<noteq> None) \<longrightarrow>
      descending P (expenses (loadExpenses P Resolves w)) \<and>
      (\<forall>t. filter (\<lambda>e. newDate P (timestamp e) = Some t) (expenses (loadExpenses P Resolves w)) =
           filter (\<lambda>e. newDate P (timestamp e) = Some t) xs) \<and>
      set (expenses (loadExpenses P Resolves w)) = set xs \<and>
      length (expenses (loadExpenses P Resolves w)) = length xs) \<and>
   expenses (handleSaveExpense P wr e w) = e # expenses w \<and>
   (valid P fm1 \<and> valid P fm2 \<longrightarrow>
      expenses (snd (handleSave P t2 s2 wr2 fm2 (snd (handleSave P t1 s1 wr1 fm1 w)))) ! 0 =
        newExpenseOf P t2 s2 fm2 \<and>
      expenses (snd (handleSave P t2 s2 wr2 fm2 (snd (handleSave P t1 s1 wr1 fm1 w)))) ! 1 =
        newExpenseOf P t1 s1 fm1) \<and>
   (descending P (expenses w) \<and>
    (\<forall>x \<in> set (expenses w). \<forall>te tx. newDate P (timestamp e) = Some te \<longrightarrow>
        newDate P (timestamp x) = Some tx \<longrightarrow> tx \<le> te) \<longrightarrow>
      descending P (expenses (handleSaveExpense P wr e w))) \<and>
   (descending P (expenses w) \<longrightarrow> descending P (expenses (deleteExpense P pressed wr i w)))"
proof -
  have 1: "storage w = Some s \<Longrightarrow> s \<noteq> [] \<Longrightarrow> parse P s = Parsed xs \<Longrightarrow>
      expenses (loadExpenses P Resolves w) = array_sort (newestFirst P) xs"
    by (simp add: loadExpenses_Parsed)
  have 2: "valid P fm1 \<Longrightarrow> valid P fm2 \<Longrightarrow>
      expenses (snd (handleSave P t2 s2 wr2 fm2 (snd (handleSave P t1 s1 wr1 fm1 w)))) =
        newExpenseOf P t2 s2 fm2 # newExpenseOf P t1 s1 fm1 # expenses w"
    by (simp add: expenses_handleSave)
  have 3: "descending P (expenses w) \<Longrightarrow> descending P (expenses (deleteExpense P pressed wr i w))"
    by (cases pressed) (simp_all add: expenses_deleteExpense descending_def sorted_wrt_filter)
  show ?thesis
    using 1 2 3
    by (auto simp: descending_array_sort filter_array_sort set_array_sort length_array_sort
        descending_Cons expenses_handleSaveExpense)
qed


lemma sampleParse_two:
  "sampleParse (sampleStringify [food, transport]) = Parsed [food, transport]"
  "sampleParse (sampleStringify [transport]) = Parsed [transport]"
  by (simp_all add: sampleParse_def sampleCollections_def sampleStringify_def sampleObject_def
      quoted_def sampleNumber_def food_def transport_def)

lemma sampleStringify_nonempty: "sampleStringify xs \<noteq> []"
  by (simp add: sampleStringify_def)

lemma sample_times:
  "newDate device (timestamp food) = Some 1710500000000"
  "newDate device (timestamp transport) = Some 1710586400000"
  by (simp_all add: device_simps sampleNewDate_def food_def transport_def)

lemma sample_sort: "array_sort (newestFirst device) [food, transport] = [transport, food]"
  by (simp add: array_sort_def comesAfter_newestFirst sample_times)

theorem load_sorts_save_prepends_witness:
  "expenses (loadExpenses device Resolves
      (initialWorld (Some (sampleStringify [food, transport])))) = [transport, food] \<and>
   descending device [transport, food] \<and>
   expenses (snd (handleSave device 1710586400000 1710586400000 Resolves transportForm
      (snd (handleSave device 1710500000000 1710500000000 Resolves foodForm
         (initialWorld None))))) ! 0 = transport \<and>
   expenses (snd (handleSave device 1710586400000 1710586400000 Resolves transportForm
      (snd (handleSave device 1710500000000 1710500000000 Resolves foodForm
         (initialWorld None))))) ! 1 = food"
proof -
  have l: "expenses (loadExpenses device Resolves
      (initialWorld (Some (sampleStringify [food, transport])))) = [transport, food]"
    by (simp add: loadExpenses_Parsed [where s = "sampleStringify [food, transport]"
          and xs = "[food, transport]"]
        initialWorld_def device_simps sampleParse_two sampleStringify_nonempty sample_sort)
  have "storage (initialWorld (Some (sampleStringify [food, transport]))) =
      Some (sampleStringify [food, transport])"
    and "parse device (sampleStringify [food, transport]) = Parsed [food, transport]"
    by (simp_all add: initialWorld_def device_simps sampleParse_two)
  moreover have "\<forall>e \<in> set [food, transport]. newDate device (timestamp e) \<noteq> None"
    by (simp add: sample_times)
  ultimately show ?thesis
    using valid_foodForm valid_transportForm sampleStringify_nonempty [of "[food, transport]"]
      load_sorts_save_prepends [where w = "initialWorld (Some (sampleStringify [food, transport]))"
        and s = "sampleStringify [food, transport]" and xs = "[food, transport]" and P = device
        and pressed = Cancel]
      load_sorts_save_prepends [where w = "initialWorld None" and P = device
        and ?fm1.0 = foodForm and ?fm2.0 = transportForm
        and ?t1.0 = 1710500000000 and ?s1.0 = 1710500000000
        and ?t2.0 = 1710586400000 and ?s2.0 = 1710586400000 and pressed = Cancel]
    by (simp add: l newExpenseOf_food newExpenseOf_transport)
qed

text \<open>
  The store holds a record of 16 March; the clock reads 15 March when the next expense is
  saved. The new record stands first and the list is not ordered by timestamp.
\<close>

theorem save_with_earlier_clock_unsorted:
  "valid device foodForm \<and>
   expenses (snd (handleSave device 1710500000000 1710500000000 Resolves foodForm
      (loadExpenses device Resolves (initialWorld (Some (sampleStringify [transport]))))))
     = [food, transport] \<and>
   \<not> descending device
      (expenses (snd (handleSave device 1710500000000 1710500000000 Resolves foodForm
         (loadExpenses device Resolves (initialWorld (Some (sampleStringify [transport])))))))"
proof -
  have "expenses (loadExpenses device Resolves (initialWorld (Some (sampleStringify [transport]))))
      = [transport]"
    by (simp add: loadExpenses_Parsed [where s = "sampleStringify [transport]"
          and xs = "[transport]"]
        initialWorld_def device_simps sampleParse_two sampleStringify_nonempty array_sort_def)
  then have "expenses (snd (handleSave device 1710500000000 1710500000000 Resolves foodForm
      (loadExpenses device Resolves (initialWorld (Some (sampleStringify [transport]))))))
     = [food, transport]"
    by (simp add: expenses_handleSave [OF valid_foodForm] newExpenseOf_food)
  moreover have "\<not> descending device [food, transport]"
    by (simp add: descending_def sample_times)
  ultimately show ?thesis
    using valid_foodForm by simp
qed

end
